theory Spec2Isabelle
  imports Main "HOL-Library.AList"
begin

section \<open>Identifier codec\<close>

text \<open>
  A \<open>bson.ObjectId\<close> is a Go string holding the raw bytes of the identifier; a valid one
  has 12 bytes. Its external form is the lower-case hexadecimal string of those bytes.
  Go strings are byte sequences, so they are \<open>string\<close> here (a \<open>char\<close> is one byte).

  Modelled from the spec: the codec functions \<open>ObjectId.Hex\<close>, \<open>bson.IsObjectIdHex\<close> and
  \<open>bson.ObjectIdHex\<close> (with \<open>hex.EncodeToString\<close> and \<open>hex.DecodeString\<close> under them)
  belong to imported packages whose code is not among the sources. They follow section 4.1
  of the specification (a 12-byte identifier, its hexadecimal string, failure on a wrong
  length or a wrong character) and the documented behaviour of those packages:
  \<open>IsObjectIdHex\<close> wants 24 characters that decode, \<open>ObjectIdHex\<close> panics (\<open>None\<close>) when
  the string does not decode to 12 bytes, and decoding accepts both letter cases.
\<close>

type_synonym ObjectId = string

definition hextable :: string where
  "hextable = ''0123456789abcdef''"

definition fromHexChar :: "char \<Rightarrow> nat option" where
  "fromHexChar c =
     (let n = (of_char c :: nat) in
      if 48 \<le> n \<and> n \<le> 57 then Some (n - 48)
      else if 97 \<le> n \<and> n \<le> 102 then Some (n - 97 + 10)
      else if 65 \<le> n \<and> n \<le> 70 then Some (n - 65 + 10)
      else None)"

fun EncodeToString :: "string \<Rightarrow> string" where
  "EncodeToString [] = []"
| "EncodeToString (b # bs) =
     hextable ! (of_char b div 16) # hextable ! (of_char b mod 16) # EncodeToString bs"

fun DecodeString :: "string \<Rightarrow> string option" where
  "DecodeString [] = Some []"
| "DecodeString [p] = None"
| "DecodeString (p # q # rest) =
     (case fromHexChar p of
        None \<Rightarrow> None
      | Some a \<Rightarrow>
         (case fromHexChar q of
            None \<Rightarrow> None
          | Some b \<Rightarrow> map_option ((#) (char_of (a * 16 + b))) (DecodeString rest)))"

definition Hex :: "ObjectId \<Rightarrow> string" where
  "Hex i = EncodeToString i"

definition IsObjectIdHex :: "string \<Rightarrow> bool" where
  "IsObjectIdHex s = (if length s \<noteq> 24 then False else DecodeString s \<noteq> None)"

definition ObjectIdHex :: "string \<Rightarrow> ObjectId option" where
  "ObjectIdHex s =
     (case DecodeString s of
        None \<Rightarrow> None
      | Some d \<Rightarrow> if length d \<noteq> 12 then None else Some d)"

section \<open>Errors\<close>

text \<open>
  \<open>ErrorString\<close> is a value made by \<open>errors.New\<close> or \<open>fmt.Errorf\<close>, told apart by its
  message only; \<open>ErrNotFound\<close> is \<open>mgo.ErrNotFound\<close>; \<open>ErrDuplicateKey\<close> is the server's
  answer to a write that breaks the unique index on \<open>username\<close>; \<open>ErrIO\<close> is any other
  failure of a round trip to the server. \<open>Panic\<close> is not an error value of the program: it
  stands for the run-time panic of \<open>bson.ObjectIdHex\<close> on a string that is no identifier.
\<close>

datatype error =
    ErrorString string
  | ErrNotFound
  | ErrDuplicateKey
  | ErrIO string
  | Panic

fun Error :: "error \<Rightarrow> string" where
  "Error (ErrorString m) = m"
| "Error ErrNotFound = ''not found''"
| "Error ErrDuplicateKey = ''E11000 duplicate key error''"
| "Error (ErrIO m) = m"
| "Error Panic = ''invalid input to ObjectIdHex''"

definition ErrInvalidHexID :: error where
  "ErrInvalidHexID = ErrorString ''Invalid Id Hex''"

text \<open>The verb \<open>%v\<close> of \<open>fmt\<close> applied to an error that may be nil.\<close>

definition fmt_v :: "error option \<Rightarrow> string" where
  "fmt_v r = (case r of None \<Rightarrow> ''<nil>'' | Some e \<Rightarrow> Error e)"

section \<open>Domain values and stored documents\<close>

text \<open>
  Modelled from the spec: the package \<open>users\<close> (the types \<open>User\<close>, \<open>Address\<close>, \<open>Card\<close> and
  the constructor \<open>users.New\<close>) is not among the sources. Sections 3 and 6 of the
  specification give them as plain value records whose id field is an external string,
  empty meaning not yet persisted; a user has a unique username, profile fields and the
  lists of its addresses and cards; an address has postal fields, a card payment fields.
  The id fields and the two lists of a \<open>User\<close> are not part of the stored document: the
  stored user carries the reference ids in \<open>addresses\<close> and \<open>cards\<close> instead (section 6,
  persisted layout), so marshalling drops them.
\<close>

record Address =
  postal :: string
  ID :: string

record Card =
  payment :: string
  ID :: string

record User =
  Username :: string
  profile :: string
  Addresses :: "Address list"
  Cards :: "Card list"
  UserID :: string

definition users_New :: User where
  "users_New = \<lparr>Username = '''', profile = '''', Addresses = [], Cards = [], UserID = ''''\<rparr>"

record MongoUser =
  User :: User
  ID :: ObjectId
  AddressIDs :: "ObjectId list"
  CardIDs :: "ObjectId list"

record MongoAddress =
  Address :: Address
  ID :: ObjectId

record MongoCard =
  Card :: Card
  ID :: ObjectId

definition New :: MongoUser where
  "New = \<lparr>User = users_New, ID = [], AddressIDs = [], CardIDs = []\<rparr>"

definition AddUserIDs :: "MongoUser \<Rightarrow> MongoUser" where
  "AddUserIDs mu =
     mu\<lparr>MongoUser.User := (MongoUser.User mu)
        \<lparr>Addresses := Addresses (MongoUser.User mu)
                        @ map (\<lambda>i. \<lparr>postal = '''', ID = Hex i\<rparr>) (AddressIDs mu),
         Cards := Cards (MongoUser.User mu)
                    @ map (\<lambda>i. \<lparr>payment = '''', ID = Hex i\<rparr>) (CardIDs mu),
         UserID := Hex (MongoUser.ID mu)\<rparr>\<rparr>"

definition AddID_address :: "MongoAddress \<Rightarrow> MongoAddress" where
  "AddID_address m =
     m\<lparr>MongoAddress.Address := (MongoAddress.Address m)\<lparr>Address.ID := Hex (MongoAddress.ID m)\<rparr>\<rparr>"

definition AddID_card :: "MongoCard \<Rightarrow> MongoCard" where
  "AddID_card m =
     m\<lparr>MongoCard.Card := (MongoCard.Card m)\<lparr>Card.ID := Hex (MongoCard.ID m)\<rparr>\<rparr>"

text \<open>What the document written for a value holds: the fields that are not persisted are blank.\<close>

definition bson_MongoUser :: "MongoUser \<Rightarrow> MongoUser" where
  "bson_MongoUser mu =
     mu\<lparr>MongoUser.User := (MongoUser.User mu)\<lparr>Addresses := [], Cards := [], UserID := ''''\<rparr>\<rparr>"

definition bson_MongoAddress :: "MongoAddress \<Rightarrow> MongoAddress" where
  "bson_MongoAddress m = m\<lparr>MongoAddress.Address := (MongoAddress.Address m)\<lparr>Address.ID := ''''\<rparr>\<rparr>"

definition bson_MongoCard :: "MongoCard \<Rightarrow> MongoCard" where
  "bson_MongoCard m = m\<lparr>MongoCard.Card := (MongoCard.Card m)\<lparr>Card.ID := ''''\<rparr>\<rparr>"

text \<open>
  What decoding the document stored under \<open>_id = k\<close> gives: the key in \<open>ID\<close>, and the
  zero value in every field that is not persisted.
\<close>

definition unmarshal_MongoUser :: "ObjectId \<Rightarrow> MongoUser \<Rightarrow> MongoUser" where
  "unmarshal_MongoUser k d = (bson_MongoUser d)\<lparr>MongoUser.ID := k\<rparr>"

definition unmarshal_MongoAddress :: "ObjectId \<Rightarrow> MongoAddress \<Rightarrow> MongoAddress" where
  "unmarshal_MongoAddress k d = (bson_MongoAddress d)\<lparr>MongoAddress.ID := k\<rparr>"

definition unmarshal_MongoCard :: "ObjectId \<Rightarrow> MongoCard \<Rightarrow> MongoCard" where
  "unmarshal_MongoCard k d = (bson_MongoCard d)\<lparr>MongoCard.ID := k\<rparr>"

section \<open>The document store\<close>

text \<open>
  The server is the environment of the program. Its state is the three collections, each a
  list of documents keyed by \<open>_id\<close> in insertion order (the key of an entry is the
  \<open>_id\<close> of its document, and a document is read back through \<open>unmarshal\<close>);
  \<open>counter\<close> drives
  \<open>bson.NewObjectId\<close>; \<open>faults\<close> holds what the coming round trips to the server will
  meet (\<open>Some e\<close>: the round trip fails with \<open>e\<close> and changes nothing; an exhausted list:
  no failure); \<open>trace\<close> records every call made to a collection with its outcome.
\<close>

datatype query =
    UpsertId ObjectId
  | RemoveAllIn "ObjectId list"
  | UpdateAddToSet ObjectId string ObjectId
  | UpdateAllPull string ObjectId
  | FindId ObjectId
  | FindAllIn "ObjectId list"
  | RemoveId ObjectId

record event =
  coll :: string
  query :: query
  outcome :: "error option"

record world =
  customers :: "(ObjectId \<times> MongoUser) list"
  addresses :: "(ObjectId \<times> MongoAddress) list"
  cards :: "(ObjectId \<times> MongoCard) list"
  counter :: nat
  faults :: "error option list"
  trace :: "event list"

text \<open>
  \<open>bson.NewObjectId\<close> returns a new 12-byte identifier on every call; here it is the
  big-endian form of a counter.
\<close>

definition oid_of_nat :: "nat \<Rightarrow> ObjectId" where
  "oid_of_nat n = map (\<lambda>k. char_of (n div 256 ^ (11 - k))) [0..<12]"

definition NewObjectId :: "world \<Rightarrow> ObjectId \<times> world" where
  "NewObjectId w = (oid_of_nat (counter w), w\<lparr>counter := counter w + 1\<rparr>)"

definition roundtrip :: "world \<Rightarrow> error option \<times> world" where
  "roundtrip w =
     (case faults w of
        [] \<Rightarrow> (None, w)
      | f # fs \<Rightarrow> (f, w\<lparr>faults := fs\<rparr>))"

definition reply :: "string \<Rightarrow> query \<Rightarrow> error option \<Rightarrow> world \<Rightarrow> error option \<times> world" where
  "reply c q r w = (r, w\<lparr>trace := trace w @ [\<lparr>coll = c, query = q, outcome = r\<rparr>]\<rparr>)"

text \<open>\<open>c.UpsertId(id, doc)\<close> on each collection; \<open>customers\<close> has the unique index on \<open>username\<close>.\<close>

definition UpsertId_customers :: "ObjectId \<Rightarrow> MongoUser \<Rightarrow> world \<Rightarrow> error option \<times> world" where
  "UpsertId_customers i d w =
     (case roundtrip w of
        (Some e, w1) \<Rightarrow> reply ''customers'' (UpsertId i) (Some e) w1
      | (None, w1) \<Rightarrow>
          if list_ex (\<lambda>(k, d'). k \<noteq> i
                \<and> Username (MongoUser.User d') = Username (MongoUser.User d)) (customers w1)
          then reply ''customers'' (UpsertId i) (Some ErrDuplicateKey) w1
          else reply ''customers'' (UpsertId i) None
                 (w1\<lparr>customers := AList.update i (bson_MongoUser d) (customers w1)\<rparr>))"

definition UpsertId_addresses :: "ObjectId \<Rightarrow> MongoAddress \<Rightarrow> world \<Rightarrow> error option \<times> world" where
  "UpsertId_addresses i d w =
     (case roundtrip w of
        (Some e, w1) \<Rightarrow> reply ''addresses'' (UpsertId i) (Some e) w1
      | (None, w1) \<Rightarrow>
          reply ''addresses'' (UpsertId i) None
            (w1\<lparr>addresses := AList.update i (bson_MongoAddress d) (addresses w1)\<rparr>))"

definition UpsertId_cards :: "ObjectId \<Rightarrow> MongoCard \<Rightarrow> world \<Rightarrow> error option \<times> world" where
  "UpsertId_cards i d w =
     (case roundtrip w of
        (Some e, w1) \<Rightarrow> reply ''cards'' (UpsertId i) (Some e) w1
      | (None, w1) \<Rightarrow>
          reply ''cards'' (UpsertId i) None
            (w1\<lparr>cards := AList.update i (bson_MongoCard d) (cards w1)\<rparr>))"

text \<open>\<open>c.RemoveAll(bson.M{"_id": bson.M{"$in": ids}})\<close>.\<close>

definition RemoveAll_addresses :: "ObjectId list \<Rightarrow> world \<Rightarrow> error option \<times> world" where
  "RemoveAll_addresses ids w =
     (case roundtrip w of
        (Some e, w1) \<Rightarrow> reply ''addresses'' (RemoveAllIn ids) (Some e) w1
      | (None, w1) \<Rightarrow>
          reply ''addresses'' (RemoveAllIn ids) None
            (w1\<lparr>addresses := filter (\<lambda>(k, d). k \<notin> set ids) (addresses w1)\<rparr>))"

definition RemoveAll_cards :: "ObjectId list \<Rightarrow> world \<Rightarrow> error option \<times> world" where
  "RemoveAll_cards ids w =
     (case roundtrip w of
        (Some e, w1) \<Rightarrow> reply ''cards'' (RemoveAllIn ids) (Some e) w1
      | (None, w1) \<Rightarrow>
          reply ''cards'' (RemoveAllIn ids) None
            (w1\<lparr>cards := filter (\<lambda>(k, d). k \<notin> set ids) (cards w1)\<rparr>))"

text \<open>
  The update operators on a stored user. Only the two reference sets are fields of the
  modelled document; an operator on any other field name leaves them as they are.
\<close>

definition addToSet :: "string \<Rightarrow> ObjectId \<Rightarrow> MongoUser \<Rightarrow> MongoUser" where
  "addToSet attr i d =
     (if attr = ''addresses''
      then d\<lparr>AddressIDs := (if i \<in> set (AddressIDs d) then AddressIDs d else AddressIDs d @ [i])\<rparr>
      else if attr = ''cards''
      then d\<lparr>CardIDs := (if i \<in> set (CardIDs d) then CardIDs d else CardIDs d @ [i])\<rparr>
      else d)"

definition pull :: "string \<Rightarrow> ObjectId \<Rightarrow> MongoUser \<Rightarrow> MongoUser" where
  "pull attr i d =
     (if attr = ''addresses'' then d\<lparr>AddressIDs := removeAll i (AddressIDs d)\<rparr>
      else if attr = ''cards'' then d\<lparr>CardIDs := removeAll i (CardIDs d)\<rparr>
      else d)"

text \<open>\<open>c.Update(bson.M{"_id": uid}, bson.M{"$addToSet": bson.M{attr: id}})\<close> on \<open>customers\<close>.\<close>

definition Update_addToSet :: "ObjectId \<Rightarrow> string \<Rightarrow> ObjectId \<Rightarrow> world \<Rightarrow> error option \<times> world" where
  "Update_addToSet uid attr i w =
     (case roundtrip w of
        (Some e, w1) \<Rightarrow> reply ''customers'' (UpdateAddToSet uid attr i) (Some e) w1
      | (None, w1) \<Rightarrow>
          (case map_of (customers w1) uid of
             None \<Rightarrow> reply ''customers'' (UpdateAddToSet uid attr i) (Some ErrNotFound) w1
           | Some d \<Rightarrow>
               reply ''customers'' (UpdateAddToSet uid attr i) None
                 (w1\<lparr>customers := AList.update uid (addToSet attr i d) (customers w1)\<rparr>)))"

text \<open>\<open>c.UpdateAll(bson.M{}, bson.M{"$pull": bson.M{attr: id}})\<close> on \<open>customers\<close>.\<close>

definition UpdateAll_pull :: "string \<Rightarrow> ObjectId \<Rightarrow> world \<Rightarrow> error option \<times> world" where
  "UpdateAll_pull attr i w =
     (case roundtrip w of
        (Some e, w1) \<Rightarrow> reply ''customers'' (UpdateAllPull attr i) (Some e) w1
      | (None, w1) \<Rightarrow>
          reply ''customers'' (UpdateAllPull attr i) None
            (w1\<lparr>customers := map (\<lambda>(k, d). (k, pull attr i d)) (customers w1)\<rparr>))"

text \<open>
  \<open>c.FindId(id).One(&mu)\<close>: the destination keeps its value when the call fails or finds
  nothing.
\<close>

definition One_customers :: "ObjectId \<Rightarrow> MongoUser \<Rightarrow> world \<Rightarrow> (MongoUser \<times> error option) \<times> world" where
  "One_customers i mu w =
     (case roundtrip w of
        (Some e, w1) \<Rightarrow> ((mu, Some e), snd (reply ''customers'' (FindId i) (Some e) w1))
      | (None, w1) \<Rightarrow>
          (case map_of (customers w1) i of
             None \<Rightarrow> ((mu, Some ErrNotFound), snd (reply ''customers'' (FindId i) (Some ErrNotFound) w1))
           | Some d \<Rightarrow>
               ((unmarshal_MongoUser i d, None), snd (reply ''customers'' (FindId i) None w1))))"

text \<open>\<open>c.Find(bson.M{"_id": bson.M{"$in": ids}}).All(&ma)\<close>.\<close>

definition All_addresses :: "ObjectId list \<Rightarrow> world \<Rightarrow> (MongoAddress list \<times> error option) \<times> world" where
  "All_addresses ids w =
     (case roundtrip w of
        (Some e, w1) \<Rightarrow> (([], Some e), snd (reply ''addresses'' (FindAllIn ids) (Some e) w1))
      | (None, w1) \<Rightarrow>
          ((map (\<lambda>(k, d). unmarshal_MongoAddress k d)
              (filter (\<lambda>(k, d). k \<in> set ids) (addresses w1)), None),
           snd (reply ''addresses'' (FindAllIn ids) None w1)))"

definition All_cards :: "ObjectId list \<Rightarrow> world \<Rightarrow> (MongoCard list \<times> error option) \<times> world" where
  "All_cards ids w =
     (case roundtrip w of
        (Some e, w1) \<Rightarrow> (([], Some e), snd (reply ''cards'' (FindAllIn ids) (Some e) w1))
      | (None, w1) \<Rightarrow>
          ((map (\<lambda>(k, d). unmarshal_MongoCard k d)
              (filter (\<lambda>(k, d). k \<in> set ids) (cards w1)), None),
           snd (reply ''cards'' (FindAllIn ids) None w1)))"

text \<open>
  \<open>c.Remove(bson.M{"_id": id})\<close> on the collection named \<open>entity\<close>. The server keeps
  \<open>_id\<close> unique in a collection, so removing the document of that \<open>_id\<close> leaves none.
  A collection of any other name than the three holds no document.
\<close>

definition Remove :: "string \<Rightarrow> ObjectId \<Rightarrow> world \<Rightarrow> error option \<times> world" where
  "Remove entity i w =
     (case roundtrip w of
        (Some e, w1) \<Rightarrow> reply entity (RemoveId i) (Some e) w1
      | (None, w1) \<Rightarrow>
          if entity = ''customers'' then
            (if map_of (customers w1) i = None then reply entity (RemoveId i) (Some ErrNotFound) w1
             else reply entity (RemoveId i) None (w1\<lparr>customers := AList.delete i (customers w1)\<rparr>))
          else if entity = ''addresses'' then
            (if map_of (addresses w1) i = None then reply entity (RemoveId i) (Some ErrNotFound) w1
             else reply entity (RemoveId i) None (w1\<lparr>addresses := AList.delete i (addresses w1)\<rparr>))
          else if entity = ''cards'' then
            (if map_of (cards w1) i = None then reply entity (RemoveId i) (Some ErrNotFound) w1
             else reply entity (RemoveId i) None (w1\<lparr>cards := AList.delete i (cards w1)\<rparr>))
          else reply entity (RemoveId i) (Some ErrNotFound) w1)"

section \<open>The persistence layer\<close>

text \<open>
  Each operation takes the store and returns it updated. A Go pointer argument that the
  operation writes through (\<open>u *users.User\<close>, \<open>ca *users.Card\<close>) is returned next to
  the error, and so is a slice whose elements are assigned in place. Tracing spans and
  the copy of the session have no effect on the store and are left out. The parameter
  \<open>id\<close> of the source is written \<open>ident\<close>, since \<open>id\<close> is the identity function
  of HOL.
\<close>

subsection \<open>CreateUser\<close>

text \<open>
  The loop of \<open>createCards\<close>: the ids appended so far are returned with the error of the
  first upsert that fails; \<open>cs[k].ID\<close> is assigned after each upsert that worked.
\<close>

fun createCards :: "Card list \<Rightarrow> world \<Rightarrow> (ObjectId list \<times> error option \<times> Card list) \<times> world" where
  "createCards [] w = (([], None, []), w)"
| "createCards (ca # cs) w =
     (let (i, w1) = NewObjectId w;
          mc = \<lparr>Card = ca, ID = i\<rparr>;
          (err, w2) = UpsertId_cards (MongoCard.ID mc) mc w1
      in case err of
           Some e \<Rightarrow> (([], Some e, ca # cs), w2)
         | None \<Rightarrow>
             (let ((ids, r, cs'), w3) = createCards cs w2
              in ((i # ids, r, ca\<lparr>Card.ID := Hex i\<rparr> # cs'), w3)))"

fun createAddresses :: "Address list \<Rightarrow> world \<Rightarrow> (ObjectId list \<times> error option \<times> Address list) \<times> world" where
  "createAddresses [] w = (([], None, []), w)"
| "createAddresses (a # as) w =
     (let (i, w1) = NewObjectId w;
          ma = \<lparr>Address = a, ID = i\<rparr>;
          (err, w2) = UpsertId_addresses (MongoAddress.ID ma) ma w1
      in case err of
           Some e \<Rightarrow> (([], Some e, a # as), w2)
         | None \<Rightarrow>
             (let ((ids, r, as'), w3) = createAddresses as w2
              in ((i # ids, r, a\<lparr>Address.ID := Hex i\<rparr> # as'), w3)))"

text \<open>The error of the first \<open>RemoveAll\<close> is overwritten by the result of the second.\<close>

definition cleanAttributes :: "MongoUser \<Rightarrow> world \<Rightarrow> error option \<times> world" where
  "cleanAttributes mu w =
     (let (err, w1) = RemoveAll_addresses (AddressIDs mu) w;
          (err, w2) = RemoveAll_cards (CardIDs mu) w1
      in (err, w2))"

text \<open>
  \<open>mu.User = *u\<close> copies the struct, so \<open>mu.User.Cards\<close>, \<open>u.Cards\<close> and the argument of
  \<open>createCards\<close> are one array (and so for the addresses): the ids assigned in place are
  seen through all three. \<open>*u = mu.User\<close> is reached on the last path only.
\<close>

definition CreateUser :: "User \<Rightarrow> world \<Rightarrow> (error option \<times> User) \<times> world" where
  "CreateUser u w =
     (let (i, w0) = NewObjectId w;
          mu = New\<lparr>MongoUser.User := u, MongoUser.ID := i\<rparr>;
          ((cids, carderr, cs), w1) = createCards (Cards u) w0;
          ((aids, addrerr, as), w2) = createAddresses (Addresses u) w1;
          u1 = u\<lparr>Addresses := as, Cards := cs\<rparr>;
          mu = mu\<lparr>MongoUser.User := u1, AddressIDs := aids, CardIDs := cids\<rparr>;
          (err, w3) = UpsertId_customers (MongoUser.ID mu) mu w2
      in case err of
           Some e \<Rightarrow> (let (_, w4) = cleanAttributes mu w3 in ((Some e, u1), w4))
         | None \<Rightarrow>
             (let mu = mu\<lparr>MongoUser.User := (MongoUser.User mu)\<lparr>UserID := Hex (MongoUser.ID mu)\<rparr>\<rparr>
              in if carderr \<noteq> None \<or> addrerr \<noteq> None
                 then ((Some (ErrorString (fmt_v carderr @ '' '' @ fmt_v addrerr)), u1), w3)
                 else ((None, MongoUser.User mu), w3)))"

subsection \<open>Reading a user\<close>

definition GetUser :: "string \<Rightarrow> world \<Rightarrow> (User \<times> error option) \<times> world" where
  "GetUser ident w =
     (if \<not> IsObjectIdHex ident then ((users_New, Some (ErrorString ''Invalid Id Hex'')), w)
      else case ObjectIdHex ident of
             None \<Rightarrow> ((users_New, Some Panic), w)
           | Some i \<Rightarrow>
               (let ((mu, err), w1) = One_customers i New w
                in ((MongoUser.User (AddUserIDs mu), err), w1)))"

text \<open>
  The two loops of \<open>GetUserAttributes\<close> that turn the id strings into identifiers, leaving
  at the first string that \<open>IsObjectIdHex\<close> refuses.
\<close>

fun objectIds :: "string list \<Rightarrow> error + ObjectId list" where
  "objectIds [] = Inr []"
| "objectIds (s # ss) =
     (if \<not> IsObjectIdHex s then Inl ErrInvalidHexID
      else case ObjectIdHex s of
             None \<Rightarrow> Inl Panic
           | Some i \<Rightarrow> (case objectIds ss of Inl e \<Rightarrow> Inl e | Inr ids \<Rightarrow> Inr (i # ids)))"

definition GetUserAttributes :: "User \<Rightarrow> world \<Rightarrow> (error option \<times> User) \<times> world" where
  "GetUserAttributes u w =
     (case objectIds (map Address.ID (Addresses u)) of
        Inl e \<Rightarrow> ((Some e, u), w)
      | Inr ids \<Rightarrow>
          (let ((ma, err), w1) = All_addresses ids w
           in case err of
                Some e \<Rightarrow> ((Some e, u), w1)
              | None \<Rightarrow>
                  (let na = map (\<lambda>a. (MongoAddress.Address a)\<lparr>Address.ID := Hex (MongoAddress.ID a)\<rparr>) ma;
                       u1 = u\<lparr>Addresses := na\<rparr>
                   in case objectIds (map Card.ID (Cards u1)) of
                        Inl e \<Rightarrow> ((Some e, u1), w1)
                      | Inr ids \<Rightarrow>
                          (let ((mc, err), w2) = All_cards ids w1
                           in case err of
                                Some e \<Rightarrow> ((Some e, u1), w2)
                              | None \<Rightarrow>
                                  (let nc = map (\<lambda>ca. (MongoCard.Card ca)\<lparr>Card.ID := Hex (MongoCard.ID ca)\<rparr>) mc
                                   in ((None, u1\<lparr>Cards := nc\<rparr>), w2))))))"

subsection \<open>Creating one card or one address\<close>

definition appendAttributeId :: "string \<Rightarrow> ObjectId \<Rightarrow> string \<Rightarrow> world \<Rightarrow> error option \<times> world" where
  "appendAttributeId attr i userid w =
     (case ObjectIdHex userid of
        None \<Rightarrow> (Some Panic, w)
      | Some uid \<Rightarrow> Update_addToSet uid attr i w)"

definition CreateCard :: "Card \<Rightarrow> string \<Rightarrow> world \<Rightarrow> (error option \<times> Card) \<times> world" where
  "CreateCard ca userid w =
     (if userid \<noteq> '''' \<and> \<not> IsObjectIdHex userid
      then ((Some (ErrorString ''Invalid Id Hex''), ca), w)
      else
        (let (i, w1) = NewObjectId w;
             mc = \<lparr>Card = ca, ID = i\<rparr>;
             (err, w2) = UpsertId_cards (MongoCard.ID mc) mc w1
         in case err of
              Some e \<Rightarrow> ((Some e, ca), w2)
            | None \<Rightarrow>
                if userid \<noteq> '''' then
                  (let (err, w3) = appendAttributeId ''cards'' (MongoCard.ID mc) userid w2
                   in case err of
                        Some e \<Rightarrow> ((Some e, ca), w3)
                      | None \<Rightarrow> ((None, MongoCard.Card (AddID_card mc)), w3))
                else ((None, MongoCard.Card (AddID_card mc)), w2)))"

definition CreateAddress :: "Address \<Rightarrow> string \<Rightarrow> world \<Rightarrow> (error option \<times> Address) \<times> world" where
  "CreateAddress a userid w =
     (if userid \<noteq> '''' \<and> \<not> IsObjectIdHex userid
      then ((Some (ErrorString ''Invalid Id Hex''), a), w)
      else
        (let (i, w1) = NewObjectId w;
             ma = \<lparr>Address = a, ID = i\<rparr>;
             (err, w2) = UpsertId_addresses (MongoAddress.ID ma) ma w1
         in case err of
              Some e \<Rightarrow> ((Some e, a), w2)
            | None \<Rightarrow>
                if userid \<noteq> '''' then
                  (let (err, w3) = appendAttributeId ''addresses'' (MongoAddress.ID ma) userid w2
                   in case err of
                        Some e \<Rightarrow> ((Some e, a), w3)
                      | None \<Rightarrow> ((None, MongoAddress.Address (AddID_address ma)), w3))
                else ((None, MongoAddress.Address (AddID_address ma)), w2)))"

subsection \<open>Delete\<close>

text \<open>
  The two loops of the \<open>customers\<close> branch call \<open>bson.ObjectIdHex\<close> with no check before
  it: \<open>those\<close> is \<open>None\<close> when one of the calls panics. The results of both \<open>RemoveAll\<close>
  and of \<open>UpdateAll\<close> are dropped.
\<close>

definition Delete :: "string \<Rightarrow> string \<Rightarrow> world \<Rightarrow> error option \<times> world" where
  "Delete entity ident w =
     (if \<not> IsObjectIdHex ident then (Some (ErrorString ''Invalid Id Hex''), w)
      else if entity = ''customers'' then
        (let ((u, err), w1) = GetUser ident w
         in case err of
              Some e \<Rightarrow> (Some e, w1)
            | None \<Rightarrow>
                (case those (map (\<lambda>a. ObjectIdHex (Address.ID a)) (Addresses u)) of
                   None \<Rightarrow> (Some Panic, w1)
                 | Some aids \<Rightarrow>
                     (case those (map (\<lambda>c. ObjectIdHex (Card.ID c)) (Cards u)) of
                        None \<Rightarrow> (Some Panic, w1)
                      | Some cids \<Rightarrow>
                          (let (_, w2) = RemoveAll_addresses aids w1;
                               (_, w3) = RemoveAll_cards cids w2
                           in case ObjectIdHex ident of
                                None \<Rightarrow> (Some Panic, w3)
                              | Some i \<Rightarrow> Remove entity i w3))))
      else
        (case ObjectIdHex ident of
           None \<Rightarrow> (Some Panic, w)
         | Some i \<Rightarrow>
             (let (_, w1) = UpdateAll_pull entity i w
              in Remove entity i w1)))"

section \<open>Observing a run\<close>

text \<open>
  What the theorems below read off a run: the calls an operation added to the trace, the
  identifiers of the documents it wrote with success into a collection, the first failure
  it met there, and whether the coming \<open>n\<close> round trips are free of failures.
\<close>

definition new_events :: "world \<Rightarrow> world \<Rightarrow> event list" where
  "new_events w w' = drop (length (trace w)) (trace w')"

text \<open>
  The calls of a loop that upserts into collection \<open>c\<close> with identifiers taken from
  counter value \<open>n\<close> on: one successful call for each id in \<open>ids\<close>, then the failed
  call when the loop left with an error.
\<close>

definition upsert_run :: "string \<Rightarrow> nat \<Rightarrow> ObjectId list \<Rightarrow> error option \<Rightarrow> event list" where
  "upsert_run c n ids err =
     map (\<lambda>i. \<lparr>coll = c, query = UpsertId i, outcome = None\<rparr>) ids
     @ (case err of
          None \<Rightarrow> []
        | Some e \<Rightarrow> [\<lparr>coll = c, query = UpsertId (oid_of_nat (n + length ids)), outcome = Some e\<rparr>])"

definition created :: "string \<Rightarrow> event list \<Rightarrow> ObjectId list" where
  "created c evs =
     concat (map (\<lambda>e. case query e of
                          UpsertId i \<Rightarrow> if coll e = c \<and> outcome e = None then [i] else []
                        | _ \<Rightarrow> []) evs)"

definition upserts :: "string \<Rightarrow> event list \<Rightarrow> event list" where
  "upserts c evs =
     filter (\<lambda>e. coll e = c \<and> (case query e of UpsertId i \<Rightarrow> True | _ \<Rightarrow> False)) evs"

definition failure :: "string \<Rightarrow> event list \<Rightarrow> error option" where
  "failure c evs =
     (case filter (\<lambda>e. coll e = c \<and> outcome e \<noteq> None) evs of
        [] \<Rightarrow> None
      | e # _ \<Rightarrow> outcome e)"

definition head_fault :: "world \<Rightarrow> error option" where
  "head_fault w = (case faults w of [] \<Rightarrow> None | f # fs \<Rightarrow> f)"

definition no_fault :: "nat \<Rightarrow> world \<Rightarrow> bool" where
  "no_fault n w = list_all (\<lambda>f. f = None) (take n (faults w))"

text \<open>Inputs for the examples: an empty store, and a user with two cards and one address.\<close>

definition store0 :: world where
  "store0 = \<lparr>customers = [], addresses = [], cards = [], counter = 0, faults = [], trace = []\<rparr>"

definition alice :: User where
  "alice = \<lparr>Username = ''alice'', profile = ''Alice A.'',
            Addresses = [\<lparr>postal = ''1 High Street'', ID = ''''\<rparr>],
            Cards = [\<lparr>payment = ''4111'', ID = ''''\<rparr>, \<lparr>payment = ''5500'', ID = ''''\<rparr>],
            UserID = ''''\<rparr>"

text \<open>
  Stores whose server fails some of the coming round trips: the first one; the second one;
  the first, the third and the fourth.
\<close>

definition card_down :: world where
  "card_down = store0\<lparr>faults := [Some (ErrIO ''connection reset'')]\<rparr>"

definition second_card_down :: world where
  "second_card_down = store0\<lparr>faults := [None, Some (ErrIO ''connection reset'')]\<rparr>"

definition user_down :: world where
  "user_down = store0\<lparr>faults := [Some (ErrIO ''connection reset''), None,
                                   Some (ErrIO ''write refused''), Some (ErrIO ''timeout'')]\<rparr>"

text \<open>A card, an address, and the external identifier of a user that no store holds.\<close>

definition visa :: Card where
  "visa = \<lparr>payment = ''4111'', ID = ''''\<rparr>"

definition home :: Address where
  "home = \<lparr>postal = ''1 High Street'', ID = ''''\<rparr>"

definition nobody :: string where
  "nobody = Hex (oid_of_nat 9)"

text \<open>
  The external identifier of a user, and a store that holds this user, without references
  so far, and nothing else.
\<close>

definition somebody :: string where
  "somebody = Hex (oid_of_nat 8)"

definition one_user :: world where
  "one_user =
     store0\<lparr>customers :=
              [(oid_of_nat 8,
                \<lparr>User = \<lparr>Username = ''bob'', profile = ''Bob B.'', Addresses = [], Cards = [],
                          UserID = ''''\<rparr>,
                  ID = oid_of_nat 8, AddressIDs = [], CardIDs = []\<rparr>)]\<rparr>"

text \<open>
  The documents of a collection whose identifier is among \<open>ids\<close>, in the order of the
  collection, each as the domain value with its external identifier.
\<close>

definition found_addresses :: "ObjectId list \<Rightarrow> world \<Rightarrow> Address list" where
  "found_addresses ids w =
     map (\<lambda>(k, d). (MongoAddress.Address d)\<lparr>Address.ID := Hex k\<rparr>)
       (filter (\<lambda>(k, d). k \<in> set ids) (addresses w))"

definition found_cards :: "ObjectId list \<Rightarrow> world \<Rightarrow> Card list" where
  "found_cards ids w =
     map (\<lambda>(k, d). (MongoCard.Card d)\<lparr>Card.ID := Hex k\<rparr>)
       (filter (\<lambda>(k, d). k \<in> set ids) (cards w))"

text \<open>
  The store left by creating \<open>alice\<close> when the upsert of her second card failed: it holds
  her record, her address and her first card. Then three user values as a caller may pass
  them to GetUserAttributes: one whose second address reference is to no document, one with
  a malformed card reference, one with a malformed address reference.
\<close>

definition alice_store :: world where
  "alice_store = snd (CreateUser alice second_card_down)"

definition alice_stale :: User where
  "alice_stale = alice\<lparr>Addresses := [\<lparr>postal = '''', ID = Hex (oid_of_nat 3)\<rparr>,
                                      \<lparr>postal = '''', ID = Hex (oid_of_nat 5)\<rparr>],
                        Cards := [\<lparr>payment = '''', ID = Hex (oid_of_nat 1)\<rparr>]\<rparr>"

definition alice_bad_card :: User where
  "alice_bad_card = alice\<lparr>Addresses := [\<lparr>postal = '''', ID = Hex (oid_of_nat 3)\<rparr>],
                           Cards := [\<lparr>payment = '''', ID = ''not an id''\<rparr>]\<rparr>"

definition alice_bad_address :: User where
  "alice_bad_address = alice\<lparr>Addresses := [\<lparr>postal = '''', ID = ''not an id''\<rparr>],
                              Cards := [\<lparr>payment = '''', ID = Hex (oid_of_nat 1)\<rparr>]\<rparr>"

text \<open>
  The same store when the server is about to fail the second of the coming round trips.
\<close>

definition alice_store_flaky :: world where
  "alice_store_flaky = alice_store\<lparr>faults := [None, Some (ErrIO ''timeout'')]\<rparr>"

section \<open>Properties of the identifier codec\<close>

lemma range10:
  "a \<le> (n::nat) \<Longrightarrow> n \<le> a + 9 \<Longrightarrow> n \<in> {a, a+1, a+2, a+3, a+4, a+5, a+6, a+7, a+8, a+9}"
  by (simp add: numeral_eq_Suc le_Suc_eq)

lemma range6:
  "a \<le> (n::nat) \<Longrightarrow> n \<le> a + 5 \<Longrightarrow> n \<in> {a, a+1, a+2, a+3, a+4, a+5}"
  by (simp add: numeral_eq_Suc le_Suc_eq)

lemma of_char_mem:
  assumes "\<exists>d \<in> set s. (of_char c :: nat) = of_char d"
  shows "c \<in> set s"
proof -
  from assms obtain d where d: "d \<in> set s" and "(of_char c :: nat) = of_char d" by blast
  then have "c = d" by (simp only: of_char_eq_iff)
  with d show ?thesis by (simp only:)
qed

lemma digit_char:
  assumes "48 \<le> (of_char c :: nat)" and "(of_char c :: nat) \<le> 57"
  shows "c \<in> set ''0123456789''"
proof (rule of_char_mem)
  have "(of_char c :: nat) \<in> {48, 48+1, 48+2, 48+3, 48+4, 48+5, 48+6, 48+7, 48+8, 48+9}"
    using assms by (intro range10) simp_all
  then show "\<exists>d \<in> set ''0123456789''. (of_char c :: nat) = of_char d"
    by (auto simp del: of_char_eq_iff)
qed

lemma lower_char:
  assumes "97 \<le> (of_char c :: nat)" and "(of_char c :: nat) \<le> 102"
  shows "c \<in> set ''abcdef''"
proof (rule of_char_mem)
  have "(of_char c :: nat) \<in> {97, 97+1, 97+2, 97+3, 97+4, 97+5}"
    using assms by (intro range6) simp_all
  then show "\<exists>d \<in> set ''abcdef''. (of_char c :: nat) = of_char d"
    by (auto simp del: of_char_eq_iff)
qed

lemma upper_char:
  assumes "65 \<le> (of_char c :: nat)" and "(of_char c :: nat) \<le> 70"
  shows "c \<in> set ''ABCDEF''"
proof (rule of_char_mem)
  have "(of_char c :: nat) \<in> {65, 65+1, 65+2, 65+3, 65+4, 65+5}"
    using assms by (intro range6) simp_all
  then show "\<exists>d \<in> set ''ABCDEF''. (of_char c :: nat) = of_char d"
    by (auto simp del: of_char_eq_iff)
qed

lemma fromHexChar_None:
  assumes "c \<notin> set ''0123456789abcdefABCDEF''"
  shows "fromHexChar c = None"
proof -
  have "c \<notin> set ''0123456789''" "c \<notin> set ''abcdef''" "c \<notin> set ''ABCDEF''"
    using assms by auto
  then show ?thesis
    using digit_char [of c] lower_char [of c] upper_char [of c]
    by (auto simp only: fromHexChar_def Let_def split: if_splits)
qed


lemma nat_lt16_cases:
  "n < (16::nat) \<Longrightarrow> n \<in> {0,1,2,3,4,5,6,7,8,9,10,11,12,13,14,15}"
  by (simp add: numeral_eq_Suc less_Suc_eq)

lemma fromHexChar_hextable: "n < 16 \<Longrightarrow> fromHexChar (hextable ! n) = Some n"
  using nat_lt16_cases [of n] by (auto simp: hextable_def fromHexChar_def)

lemma of_char_div16: "(of_char b :: nat) div 16 < 16"
proof -
  have "(of_char b :: nat) < 16 * 16" by simp
  then show ?thesis by (rule less_mult_imp_div_less)
qed

lemma DecodeString_EncodeToString: "DecodeString (EncodeToString x) = Some x"
  by (induction x) (simp_all add: fromHexChar_hextable of_char_div16)

lemma length_EncodeToString: "length (EncodeToString x) = 2 * length x"
  by (induction x) simp_all

lemma length_DecodeString: "DecodeString s = Some d \<Longrightarrow> length s = 2 * length d"
  by (induction s arbitrary: d rule: DecodeString.induct) (auto split: option.splits)

lemma DecodeString_nonhex:
  "c \<in> set s \<Longrightarrow> fromHexChar c = None \<Longrightarrow> DecodeString s = None"
  by (induction s rule: DecodeString.induct) (auto split: option.splits)

lemma IsObjectIdHex_ObjectIdHex:
  "IsObjectIdHex s \<Longrightarrow> \<exists>i. ObjectIdHex s = Some i \<and> length i = 12"
proof -
  assume "IsObjectIdHex s"
  then obtain d where l: "length s = 24" and d: "DecodeString s = Some d"
    by (auto simp: IsObjectIdHex_def split: if_splits)
  from d have "length s = 2 * length d" by (rule length_DecodeString)
  with l have "length d = 12" by arith
  with d show ?thesis by (simp add: ObjectIdHex_def)
qed

lemma ObjectIdHex_Hex: "length x = 12 \<Longrightarrow> ObjectIdHex (Hex x) = Some x"
  by (simp add: ObjectIdHex_def Hex_def DecodeString_EncodeToString)

lemma IsObjectIdHex_Hex: "length x = 12 \<Longrightarrow> IsObjectIdHex (Hex x)"
  by (simp add: IsObjectIdHex_def Hex_def DecodeString_EncodeToString length_EncodeToString)

lemma malformed_DecodeString:
  assumes "length s \<noteq> 24 \<or> (\<exists>c \<in> set s. c \<notin> set ''0123456789abcdefABCDEF'')"
  shows "DecodeString s = None \<or> (\<exists>d. DecodeString s = Some d \<and> length d \<noteq> 12)"
proof (cases "DecodeString s")
  case None
  then show ?thesis by simp
next
  case (Some d)
  have "\<not> (\<exists>c \<in> set s. c \<notin> set ''0123456789abcdefABCDEF'')"
  proof
    assume "\<exists>c \<in> set s. c \<notin> set ''0123456789abcdefABCDEF''"
    then obtain c where c: "c \<in> set s" and n: "c \<notin> set ''0123456789abcdefABCDEF''" by blast
    from n have "fromHexChar c = None" by (rule fromHexChar_None)
    with c have "DecodeString s = None" by (rule DecodeString_nonhex)
    with Some show False by simp
  qed
  with assms have "length s \<noteq> 24" by blast
  moreover have "length s = 2 * length d" using Some by (rule length_DecodeString)
  ultimately have "length d \<noteq> 12" by arith
  with Some show ?thesis by simp
qed

lemma malformed_not_hex:
  assumes "length s \<noteq> 24 \<or> (\<exists>c \<in> set s. c \<notin> set ''0123456789abcdefABCDEF'')"
  shows "\<not> IsObjectIdHex s"
proof
  assume "IsObjectIdHex s"
  then obtain d where "length s = 24" and d: "DecodeString s = Some d"
    by (auto simp: IsObjectIdHex_def split: if_splits)
  moreover from d have "length s = 2 * length d" by (rule length_DecodeString)
  ultimately show False using malformed_DecodeString [OF assms] by auto
qed

lemma malformed_panics:
  assumes "length s \<noteq> 24 \<or> (\<exists>c \<in> set s. c \<notin> set ''0123456789abcdefABCDEF'')"
  shows "ObjectIdHex s = None"
  using malformed_DecodeString [OF assms] by (auto simp: ObjectIdHex_def)

text \<open>
  C7. For every valid identifier \<open>x\<close> (12 bytes), decoding the hexadecimal string that
  encodes \<open>x\<close> gives \<open>x\<close> back, and the check made before decoding accepts that string.
  For every malformed string (not 24 characters long, or holding a character that is no
  hexadecimal digit) the check refuses it, so the public operations (\<open>GetUser\<close>, \<open>Delete\<close>,
  the loops of \<open>GetUserAttributes\<close>) fail with the invalid-identifier error without
  touching the store, and the decoder itself yields no identifier.
\<close>

theorem codec_roundtrip_and_rejects:
  "(length x = 12 \<longrightarrow> IsObjectIdHex (Hex x) \<and> ObjectIdHex (Hex x) = Some x)
   \<and> (length s \<noteq> 24 \<or> (\<exists>c \<in> set s. c \<notin> set ''0123456789abcdefABCDEF'') \<longrightarrow>
        \<not> IsObjectIdHex s \<and> ObjectIdHex s = None
        \<and> GetUser s w = ((users_New, Some (ErrorString ''Invalid Id Hex'')), w)
        \<and> Delete entity s w = (Some (ErrorString ''Invalid Id Hex''), w)
        \<and> objectIds (s # ss) = Inl ErrInvalidHexID)"
proof (intro conjI impI)
  assume m: "length s \<noteq> 24 \<or> (\<exists>c \<in> set s. c \<notin> set ''0123456789abcdefABCDEF'')"
  show n: "\<not> IsObjectIdHex s" using m by (rule malformed_not_hex)
  show "ObjectIdHex s = None" using m by (rule malformed_panics)
  show "GetUser s w = ((users_New, Some (ErrorString ''Invalid Id Hex'')), w)"
    using n by (simp add: GetUser_def)
  show "Delete entity s w = (Some (ErrorString ''Invalid Id Hex''), w)"
    using n by (simp add: Delete_def)
  show "objectIds (s # ss) = Inl ErrInvalidHexID"
    using n by simp
qed (simp_all add: ObjectIdHex_Hex IsObjectIdHex_Hex)

theorem codec_roundtrip_and_rejects_witness:
  "length ''abcdefghijkl'' = 12
   \<and> IsObjectIdHex (Hex ''abcdefghijkl'')
   \<and> ObjectIdHex (Hex ''abcdefghijkl'') = Some ''abcdefghijkl''
   \<and> (\<exists>c \<in> set ''0123456789abcdef0123456g''. c \<notin> set ''0123456789abcdefABCDEF'')
   \<and> \<not> IsObjectIdHex ''0123456789abcdef0123456g''
   \<and> ObjectIdHex ''0123456789abcdef0123456g'' = None
   \<and> objectIds [''0123456789abcdef0123456g''] = Inl ErrInvalidHexID"
  using codec_roundtrip_and_rejects [of "''abcdefghijkl''" "''0123456789abcdef0123456g''" _ _ "[]"]
  by simp

section \<open>What one call to the store does\<close>

lemma NewObjectId_run:
  "NewObjectId w = (i, w') \<Longrightarrow> i = oid_of_nat (counter w) \<and> w' = w\<lparr>counter := Suc (counter w)\<rparr>"
  by (auto simp: NewObjectId_def)

lemma UpsertId_cards_run:
  assumes "UpsertId_cards i d w = (r, w')"
  shows "trace w' = trace w @ [\<lparr>coll = ''cards'', query = UpsertId i, outcome = r\<rparr>]"
    and "counter w' = counter w" and "faults w' = tl (faults w)"
    and "customers w' = customers w" and "addresses w' = addresses w"
    and "cards w' = (if r = None then AList.update i (bson_MongoCard d) (cards w) else cards w)"
  using assms
  by (auto simp: UpsertId_cards_def roundtrip_def reply_def
           split: list.splits option.splits)

lemma UpsertId_addresses_run:
  assumes "UpsertId_addresses i d w = (r, w')"
  shows "trace w' = trace w @ [\<lparr>coll = ''addresses'', query = UpsertId i, outcome = r\<rparr>]"
    and "counter w' = counter w" and "faults w' = tl (faults w)"
    and "customers w' = customers w" and "cards w' = cards w"
    and "addresses w' = (if r = None then AList.update i (bson_MongoAddress d) (addresses w) else addresses w)"
  using assms
  by (auto simp: UpsertId_addresses_def roundtrip_def reply_def
           split: list.splits option.splits)

lemma UpsertId_customers_run:
  assumes "UpsertId_customers i d w = (r, w')"
  shows "trace w' = trace w @ [\<lparr>coll = ''customers'', query = UpsertId i, outcome = r\<rparr>]"
    and "counter w' = counter w" and "faults w' = tl (faults w)"
    and "addresses w' = addresses w" and "cards w' = cards w"
    and "customers w' = (if r = None then AList.update i (bson_MongoUser d) (customers w) else customers w)"
  using assms
  by (auto simp: UpsertId_customers_def roundtrip_def reply_def
           split: list.splits option.splits if_splits)

lemma RemoveAll_addresses_run:
  assumes "RemoveAll_addresses ids w = (r, w')"
  shows "trace w' = trace w @ [\<lparr>coll = ''addresses'', query = RemoveAllIn ids, outcome = r\<rparr>]"
    and "counter w' = counter w" and "faults w' = tl (faults w)"
    and "customers w' = customers w" and "cards w' = cards w"
    and "addresses w' = (if r = None then filter (\<lambda>(k, d). k \<notin> set ids) (addresses w) else addresses w)"
  using assms
  by (auto simp: RemoveAll_addresses_def roundtrip_def reply_def
           split: list.splits option.splits)

lemma RemoveAll_cards_run:
  assumes "RemoveAll_cards ids w = (r, w')"
  shows "trace w' = trace w @ [\<lparr>coll = ''cards'', query = RemoveAllIn ids, outcome = r\<rparr>]"
    and "counter w' = counter w" and "faults w' = tl (faults w)"
    and "customers w' = customers w" and "addresses w' = addresses w"
    and "cards w' = (if r = None then filter (\<lambda>(k, d). k \<notin> set ids) (cards w) else cards w)"
  using assms
  by (auto simp: RemoveAll_cards_def roundtrip_def reply_def
           split: list.splits option.splits)

lemma outcome_is_fault:
  "UpsertId_cards i c w = (r, w') \<Longrightarrow> r = head_fault w"
  "UpsertId_addresses i a w = (r, w') \<Longrightarrow> r = head_fault w"
  "RemoveAll_addresses ids w = (r, w') \<Longrightarrow> r = head_fault w"
  "RemoveAll_cards ids w = (r, w') \<Longrightarrow> r = head_fault w"
  by (auto simp: UpsertId_cards_def UpsertId_addresses_def RemoveAll_addresses_def
        RemoveAll_cards_def roundtrip_def reply_def head_fault_def
        split: list.splits option.splits)

section \<open>The loops of CreateUser\<close>

lemma createCards_keeps:
  "createCards cs w = (r, w') \<Longrightarrow> map_of (cards w) k \<noteq> None \<Longrightarrow> map_of (cards w') k \<noteq> None"
proof (induction cs arbitrary: w r w')
  case Nil
  then show ?case by simp
next
  case (Cons ca cs)
  obtain i w1 where n: "NewObjectId w = (i, w1)" by (cases "NewObjectId w")
  obtain x w2 where u: "UpsertId_cards i \<lparr>Card = ca, ID = i\<rparr> w1 = (x, w2)"
    by (cases "UpsertId_cards i \<lparr>Card = ca, ID = i\<rparr> w1")
  have k2: "map_of (cards w2) k \<noteq> None"
    using Cons.prems(2) NewObjectId_run [OF n] UpsertId_cards_run [OF u]
    by (simp add: update_conv')
  show ?case
  proof (cases x)
    case (Some e)
    with Cons.prems(1) n u have "w' = w2" by (auto simp: Let_def)
    with k2 show ?thesis by simp
  next
    case None
    obtain r2 w3 where c: "createCards cs w2 = (r2, w3)" by (cases "createCards cs w2")
    with Cons.prems(1) n u None have "w' = w3"
      by (auto simp: Let_def split: prod.splits)
    with Cons.IH [OF c k2] show ?thesis by simp
  qed
qed

lemma createCards_run:
  "createCards cs w = ((ids, err, cs'), w') \<Longrightarrow>
     trace w' = trace w @ upsert_run ''cards'' (counter w) ids err
     \<and> (err = None \<longrightarrow> length ids = length cs) \<and> (err \<noteq> None \<longrightarrow> length ids < length cs)
     \<and> customers w' = customers w \<and> addresses w' = addresses w
     \<and> cs' = map (\<lambda>(c, i). c\<lparr>Card.ID := Hex i\<rparr>) (zip cs ids) @ drop (length ids) cs
     \<and> (\<forall>i \<in> set ids. length i = 12 \<and> map_of (cards w') i \<noteq> None)"
proof (induction cs arbitrary: w ids err cs' w')
  case Nil
  then show ?case by (simp add: upsert_run_def)
next
  case (Cons ca cs)
  obtain i w1 where n: "NewObjectId w = (i, w1)" by (cases "NewObjectId w")
  obtain r w2 where u: "UpsertId_cards i \<lparr>Card = ca, ID = i\<rparr> w1 = (r, w2)"
    by (cases "UpsertId_cards i \<lparr>Card = ca, ID = i\<rparr> w1")
  note n' = NewObjectId_run [OF n]
  note u' = UpsertId_cards_run [OF u]
  show ?case
  proof (cases r)
    case (Some e)
    with Cons.prems n u have "ids = []" "err = Some e" "cs' = ca # cs" "w' = w2"
      by (simp_all add: Let_def)
    then show ?thesis using n' u' Some by (simp add: upsert_run_def)
  next
    case None
    obtain ids2 err2 cs2 w3 where c: "createCards cs w2 = ((ids2, err2, cs2), w3)"
      by (cases "createCards cs w2") auto
    with Cons.prems n u None
    have e: "ids = i # ids2" "err = err2" "cs' = ca\<lparr>Card.ID := Hex i\<rparr> # cs2" "w' = w3"
      by (simp_all add: Let_def)
    note ih = Cons.IH [OF c]
    have cnt: "counter w2 = Suc (counter w)" using n' u' by simp
    have "trace w' = trace w @ upsert_run ''cards'' (counter w) ids err"
      using ih [THEN conjunct1] e n' u'(1) None cnt
      by (simp add: upsert_run_def split: option.split)
    moreover have "\<forall>i \<in> set ids. length i = 12 \<and> map_of (cards w') i \<noteq> None"
    proof -
      have "map_of (cards w2) i \<noteq> None" using u' None by (simp add: update_conv')
      then have "map_of (cards w3) i \<noteq> None" using createCards_keeps [OF c] by blast
      moreover have "length i = 12" using n' by (simp add: oid_of_nat_def)
      ultimately show ?thesis using ih e by simp
    qed
    moreover have "customers w' = customers w \<and> addresses w' = addresses w"
      using ih e n' u' by simp
    moreover have "cs' = map (\<lambda>(c, i). c\<lparr>Card.ID := Hex i\<rparr>) (zip (ca # cs) ids) @ drop (length ids) (ca # cs)"
      using ih e by simp
    moreover have "(err = None \<longrightarrow> length ids = length (ca # cs)) \<and> (err \<noteq> None \<longrightarrow> length ids < length (ca # cs))"
      using ih e by simp
    ultimately show ?thesis by blast
  qed
qed

lemma createAddresses_keeps:
  "createAddresses cs w = (r, w') \<Longrightarrow> map_of (addresses w) k \<noteq> None \<Longrightarrow> map_of (addresses w') k \<noteq> None"
proof (induction cs arbitrary: w r w')
  case Nil
  then show ?case by simp
next
  case (Cons ca cs)
  obtain i w1 where n: "NewObjectId w = (i, w1)" by (cases "NewObjectId w")
  obtain x w2 where u: "UpsertId_addresses i \<lparr>Address = ca, ID = i\<rparr> w1 = (x, w2)"
    by (cases "UpsertId_addresses i \<lparr>Address = ca, ID = i\<rparr> w1")
  have k2: "map_of (addresses w2) k \<noteq> None"
    using Cons.prems(2) NewObjectId_run [OF n] UpsertId_addresses_run [OF u]
    by (simp add: update_conv')
  show ?case
  proof (cases x)
    case (Some e)
    with Cons.prems(1) n u have "w' = w2" by (auto simp: Let_def)
    with k2 show ?thesis by simp
  next
    case None
    obtain r2 w3 where c: "createAddresses cs w2 = (r2, w3)" by (cases "createAddresses cs w2")
    with Cons.prems(1) n u None have "w' = w3"
      by (auto simp: Let_def split: prod.splits)
    with Cons.IH [OF c k2] show ?thesis by simp
  qed
qed

lemma createAddresses_run:
  "createAddresses cs w = ((ids, err, cs'), w') \<Longrightarrow>
     trace w' = trace w @ upsert_run ''addresses'' (counter w) ids err
     \<and> (err = None \<longrightarrow> length ids = length cs) \<and> (err \<noteq> None \<longrightarrow> length ids < length cs)
     \<and> customers w' = customers w \<and> cards w' = cards w
     \<and> cs' = map (\<lambda>(c, i). c\<lparr>Address.ID := Hex i\<rparr>) (zip cs ids) @ drop (length ids) cs
     \<and> (\<forall>i \<in> set ids. length i = 12 \<and> map_of (addresses w') i \<noteq> None)"
proof (induction cs arbitrary: w ids err cs' w')
  case Nil
  then show ?case by (simp add: upsert_run_def)
next
  case (Cons ca cs)
  obtain i w1 where n: "NewObjectId w = (i, w1)" by (cases "NewObjectId w")
  obtain r w2 where u: "UpsertId_addresses i \<lparr>Address = ca, ID = i\<rparr> w1 = (r, w2)"
    by (cases "UpsertId_addresses i \<lparr>Address = ca, ID = i\<rparr> w1")
  note n' = NewObjectId_run [OF n]
  note u' = UpsertId_addresses_run [OF u]
  show ?case
  proof (cases r)
    case (Some e)
    with Cons.prems n u have "ids = []" "err = Some e" "cs' = ca # cs" "w' = w2"
      by (simp_all add: Let_def)
    then show ?thesis using n' u' Some by (simp add: upsert_run_def)
  next
    case None
    obtain ids2 err2 cs2 w3 where c: "createAddresses cs w2 = ((ids2, err2, cs2), w3)"
      by (cases "createAddresses cs w2") auto
    with Cons.prems n u None
    have e: "ids = i # ids2" "err = err2" "cs' = ca\<lparr>Address.ID := Hex i\<rparr> # cs2" "w' = w3"
      by (simp_all add: Let_def)
    note ih = Cons.IH [OF c]
    have cnt: "counter w2 = Suc (counter w)" using n' u' by simp
    have "trace w' = trace w @ upsert_run ''addresses'' (counter w) ids err"
      using ih [THEN conjunct1] e n' u'(1) None cnt
      by (simp add: upsert_run_def split: option.split)
    moreover have "\<forall>i \<in> set ids. length i = 12 \<and> map_of (addresses w') i \<noteq> None"
    proof -
      have "map_of (addresses w2) i \<noteq> None" using u' None by (simp add: update_conv')
      then have "map_of (addresses w3) i \<noteq> None" using createAddresses_keeps [OF c] by blast
      moreover have "length i = 12" using n' by (simp add: oid_of_nat_def)
      ultimately show ?thesis using ih e by simp
    qed
    moreover have "customers w' = customers w \<and> cards w' = cards w"
      using ih e n' u' by simp
    moreover have "cs' = map (\<lambda>(c, i). c\<lparr>Address.ID := Hex i\<rparr>) (zip (ca # cs) ids) @ drop (length ids) (ca # cs)"
      using ih e by simp
    moreover have "(err = None \<longrightarrow> length ids = length (ca # cs)) \<and> (err \<noteq> None \<longrightarrow> length ids < length (ca # cs))"
      using ih e by simp
    ultimately show ?thesis by blast
  qed
qed

lemma createCards_exact:
  "createCards cs w = ((ids, err, cs'), w') \<Longrightarrow>
     map oid_of_nat [counter w ..< counter w + length ids] = ids
     \<and> counter w' = counter w + length ids + (if err = None then 0 else 1)
     \<and> cards w' = foldl (\<lambda>al (i, c). AList.update i \<lparr>Card = c\<lparr>Card.ID := ''''\<rparr>, ID = i\<rparr> al)
                     (cards w) (zip ids cs)"
proof (induction cs arbitrary: w ids err cs' w')
  case Nil
  then show ?case by simp
next
  case (Cons ca cs)
  obtain i w1 where n: "NewObjectId w = (i, w1)" by (cases "NewObjectId w")
  obtain r w2 where u: "UpsertId_cards i \<lparr>Card = ca, ID = i\<rparr> w1 = (r, w2)"
    by (cases "UpsertId_cards i \<lparr>Card = ca, ID = i\<rparr> w1")
  note n' = NewObjectId_run [OF n]
  note u' = UpsertId_cards_run [OF u]
  have c2: "counter w2 = Suc (counter w)" using n' u'(2) by simp
  show ?case
  proof (cases r)
    case (Some e)
    with Cons.prems n u have "ids = []" "err = Some e" "w' = w2"
      by (simp_all add: Let_def)
    then show ?thesis using c2 u'(6) n' Some by simp
  next
    case None
    obtain ids2 err2 cs2 w3 where c: "createCards cs w2 = ((ids2, err2, cs2), w3)"
      by (cases "createCards cs w2") auto
    with Cons.prems n u None
    have e: "ids = i # ids2" "err = err2" "w' = w3"
      by (simp_all add: Let_def)
    note ih = Cons.IH [OF c]
    have i: "i = oid_of_nat (counter w)" using n' by simp
    have st: "cards w2 = AList.update i \<lparr>Card = ca\<lparr>Card.ID := ''''\<rparr>, ID = i\<rparr> (cards w)"
      using u'(6) None n' by (simp add: bson_MongoCard_def)
    have l: "counter w + length ids = Suc (counter w) + length ids2"
      unfolding e(1) by simp
    have "[counter w ..< Suc (counter w) + length ids2]
            = counter w # [Suc (counter w) ..< Suc (counter w) + length ids2]"
      by (rule upt_conv_Cons) simp
    then have "map oid_of_nat [counter w ..< counter w + length ids]
            = oid_of_nat (counter w) # map oid_of_nat [Suc (counter w) ..< Suc (counter w) + length ids2]"
      unfolding l by (simp only: list.map)
    also have "map oid_of_nat [Suc (counter w) ..< Suc (counter w) + length ids2] = ids2"
      using ih [THEN conjunct1] unfolding c2 .
    finally have a: "map oid_of_nat [counter w ..< counter w + length ids] = ids"
      unfolding e(1) i .
    have b: "counter w' = counter w + length ids + (if err = None then 0 else 1)"
      using ih [THEN conjunct2, THEN conjunct1] c2 e by simp
    have d: "cards w' = foldl (\<lambda>al (i, c). AList.update i \<lparr>Card = c\<lparr>Card.ID := ''''\<rparr>, ID = i\<rparr> al)
                     (cards w) (zip ids (ca # cs))"
      using ih [THEN conjunct2, THEN conjunct2] e st by simp
    from a b d show ?thesis by blast
  qed
qed

lemma createAddresses_exact:
  "createAddresses cs w = ((ids, err, cs'), w') \<Longrightarrow>
     map oid_of_nat [counter w ..< counter w + length ids] = ids
     \<and> counter w' = counter w + length ids + (if err = None then 0 else 1)
     \<and> addresses w' = foldl (\<lambda>al (i, c). AList.update i \<lparr>Address = c\<lparr>Address.ID := ''''\<rparr>, ID = i\<rparr> al)
                     (addresses w) (zip ids cs)"
proof (induction cs arbitrary: w ids err cs' w')
  case Nil
  then show ?case by simp
next
  case (Cons ca cs)
  obtain i w1 where n: "NewObjectId w = (i, w1)" by (cases "NewObjectId w")
  obtain r w2 where u: "UpsertId_addresses i \<lparr>Address = ca, ID = i\<rparr> w1 = (r, w2)"
    by (cases "UpsertId_addresses i \<lparr>Address = ca, ID = i\<rparr> w1")
  note n' = NewObjectId_run [OF n]
  note u' = UpsertId_addresses_run [OF u]
  have c2: "counter w2 = Suc (counter w)" using n' u'(2) by simp
  show ?case
  proof (cases r)
    case (Some e)
    with Cons.prems n u have "ids = []" "err = Some e" "w' = w2"
      by (simp_all add: Let_def)
    then show ?thesis using c2 u'(6) n' Some by simp
  next
    case None
    obtain ids2 err2 cs2 w3 where c: "createAddresses cs w2 = ((ids2, err2, cs2), w3)"
      by (cases "createAddresses cs w2") auto
    with Cons.prems n u None
    have e: "ids = i # ids2" "err = err2" "w' = w3"
      by (simp_all add: Let_def)
    note ih = Cons.IH [OF c]
    have i: "i = oid_of_nat (counter w)" using n' by simp
    have st: "addresses w2 = AList.update i \<lparr>Address = ca\<lparr>Address.ID := ''''\<rparr>, ID = i\<rparr> (addresses w)"
      using u'(6) None n' by (simp add: bson_MongoAddress_def)
    have l: "counter w + length ids = Suc (counter w) + length ids2"
      unfolding e(1) by simp
    have "[counter w ..< Suc (counter w) + length ids2]
            = counter w # [Suc (counter w) ..< Suc (counter w) + length ids2]"
      by (rule upt_conv_Cons) simp
    then have "map oid_of_nat [counter w ..< counter w + length ids]
            = oid_of_nat (counter w) # map oid_of_nat [Suc (counter w) ..< Suc (counter w) + length ids2]"
      unfolding l by (simp only: list.map)
    also have "map oid_of_nat [Suc (counter w) ..< Suc (counter w) + length ids2] = ids2"
      using ih [THEN conjunct1] unfolding c2 .
    finally have a: "map oid_of_nat [counter w ..< counter w + length ids] = ids"
      unfolding e(1) i .
    have b: "counter w' = counter w + length ids + (if err = None then 0 else 1)"
      using ih [THEN conjunct2, THEN conjunct1] c2 e by simp
    have d: "addresses w' = foldl (\<lambda>al (i, c). AList.update i \<lparr>Address = c\<lparr>Address.ID := ''''\<rparr>, ID = i\<rparr> al)
                     (addresses w) (zip ids (ca # cs))"
      using ih [THEN conjunct2, THEN conjunct2] e st by simp
    from a b d show ?thesis by blast
  qed
qed

section \<open>The run of CreateUser\<close>

lemma map_of_removed:
  "k \<in> set ids \<Longrightarrow> map_of (filter (\<lambda>(k, d). k \<notin> set ids) al) k = None"
  by (induction al) auto

lemma new_events_append: "trace w' = trace w @ evs \<Longrightarrow> new_events w w' = evs"
  by (simp add: new_events_def)

lemma CreateUser_run:
  assumes "CreateUser u w = ((r, u'), w')"
  shows "\<exists>cids cerr aids aerr n x o1 o2.
      new_events w w' =
        upsert_run ''cards'' (Suc (counter w)) cids cerr @ upsert_run ''addresses'' n aids aerr
        @ \<lparr>coll = ''customers'', query = UpsertId (oid_of_nat (counter w)), outcome = x\<rparr>
        # (if x = None then []
           else [\<lparr>coll = ''addresses'', query = RemoveAllIn aids, outcome = o1\<rparr>,
                 \<lparr>coll = ''cards'', query = RemoveAllIn cids, outcome = o2\<rparr>])
    \<and> (cerr = None \<longrightarrow> length cids = length (Cards u))
    \<and> (cerr \<noteq> None \<longrightarrow> length cids < length (Cards u))
    \<and> (aerr = None \<longrightarrow> length aids = length (Addresses u))
    \<and> (aerr \<noteq> None \<longrightarrow> length aids < length (Addresses u))
    \<and> r = (case x of
             Some e \<Rightarrow> Some e
           | None \<Rightarrow> if cerr \<noteq> None \<or> aerr \<noteq> None
                     then Some (ErrorString (fmt_v cerr @ '' '' @ fmt_v aerr)) else None)
    \<and> Cards u' = map (\<lambda>(c, i). c\<lparr>Card.ID := Hex i\<rparr>) (zip (Cards u) cids)
                  @ drop (length cids) (Cards u)
    \<and> Addresses u' = map (\<lambda>(a, i). a\<lparr>Address.ID := Hex i\<rparr>) (zip (Addresses u) aids)
                      @ drop (length aids) (Addresses u)
    \<and> Username u' = Username u \<and> profile u' = profile u
    \<and> UserID u' = (if r = None then Hex (oid_of_nat (counter w)) else UserID u)
    \<and> (x = None \<longrightarrow>
          map_of (customers w') (oid_of_nat (counter w))
            = Some \<lparr>User = u\<lparr>Addresses := [], Cards := [], UserID := ''''\<rparr>,
                    ID = oid_of_nat (counter w), AddressIDs = aids, CardIDs = cids\<rparr>
          \<and> (\<forall>k \<in> set cids. map_of (cards w') k \<noteq> None)
          \<and> (\<forall>k \<in> set aids. map_of (addresses w') k \<noteq> None))
    \<and> (x \<noteq> None \<longrightarrow>
          customers w' = customers w
          \<and> (o1 = None \<longrightarrow> (\<forall>k \<in> set aids. map_of (addresses w') k = None))
          \<and> (o2 = None \<longrightarrow> (\<forall>k \<in> set cids. map_of (cards w') k = None)))"
proof -
  define i where "i = oid_of_nat (counter w)"
  define w0 where "w0 = w\<lparr>counter := Suc (counter w)\<rparr>"
  have n: "NewObjectId w = (i, w0)" by (simp add: NewObjectId_def i_def w0_def)
  obtain cids cerr cs w1 where c: "createCards (Cards u) w0 = ((cids, cerr, cs), w1)"
    by (cases "createCards (Cards u) w0") auto
  obtain aids aerr as w2 where a: "createAddresses (Addresses u) w1 = ((aids, aerr, as), w2)"
    by (cases "createAddresses (Addresses u) w1") auto
  let ?u1 = "u\<lparr>Addresses := as, Cards := cs\<rparr>"
  let ?mu = "\<lparr>User = ?u1, ID = i, AddressIDs = aids, CardIDs = cids\<rparr>"
  obtain x w3 where p: "UpsertId_customers i ?mu w2 = (x, w3)"
    by (cases "UpsertId_customers i ?mu w2")
  obtain o1 w4 where r1: "RemoveAll_addresses aids w3 = (o1, w4)"
    by (cases "RemoveAll_addresses aids w3")
  obtain o2 w5 where r2: "RemoveAll_cards cids w4 = (o2, w5)"
    by (cases "RemoveAll_cards cids w4")
  note c' = createCards_run [OF c]
  note a' = createAddresses_run [OF a]
  note p' = UpsertId_customers_run [OF p]
  note r1' = RemoveAll_addresses_run [OF r1]
  note r2' = RemoveAll_cards_run [OF r2]
  have res: "((r, u'), w') =
      (case x of
         Some e \<Rightarrow> ((Some e, ?u1), w5)
       | None \<Rightarrow> if cerr \<noteq> None \<or> aerr \<noteq> None
                 then ((Some (ErrorString (fmt_v cerr @ '' '' @ fmt_v aerr)), ?u1), w3)
                 else ((None, ?u1\<lparr>UserID := Hex i\<rparr>), w3))"
    using assms n c a p r1 r2
    by (auto simp: CreateUser_def Let_def New_def cleanAttributes_def
          split: option.splits if_splits)
  have t3: "trace w3 = trace w @ upsert_run ''cards'' (Suc (counter w)) cids cerr
              @ upsert_run ''addresses'' (counter w1) aids aerr
              @ [\<lparr>coll = ''customers'', query = UpsertId i, outcome = x\<rparr>]"
    using c' a' p'(1) by (simp add: w0_def)
  have t5: "trace w5 = trace w3 @ [\<lparr>coll = ''addresses'', query = RemoveAllIn aids, outcome = o1\<rparr>,
                 \<lparr>coll = ''cards'', query = RemoveAllIn cids, outcome = o2\<rparr>]"
    using r1'(1) r2'(1) by simp
  have cs: "cs = map (\<lambda>(c, i). c\<lparr>Card.ID := Hex i\<rparr>) (zip (Cards u) cids)
                  @ drop (length cids) (Cards u)"
    using c' by blast
  have as: "as = map (\<lambda>(a, i). a\<lparr>Address.ID := Hex i\<rparr>) (zip (Addresses u) aids)
                  @ drop (length aids) (Addresses u)"
    using a' by blast
  have keys3: "(\<forall>k \<in> set cids. map_of (cards w3) k \<noteq> None)
               \<and> (\<forall>k \<in> set aids. map_of (addresses w3) k \<noteq> None)"
    using c' a' p'(4,5) by simp
  have lens: "(cerr = None \<longrightarrow> length cids = length (Cards u))
    \<and> (cerr \<noteq> None \<longrightarrow> length cids < length (Cards u))
    \<and> (aerr = None \<longrightarrow> length aids = length (Addresses u))
    \<and> (aerr \<noteq> None \<longrightarrow> length aids < length (Addresses u))"
    using c' a' by blast
  show ?thesis
  proof (cases x)
    case None
    have st: "map_of (customers w3) i
            = Some \<lparr>User = u\<lparr>Addresses := [], Cards := [], UserID := ''''\<rparr>,
                    ID = i, AddressIDs = aids, CardIDs = cids\<rparr>"
      using p'(6) None by (simp add: update_conv' bson_MongoUser_def)
    from res None have w': "w' = w3" by (simp split: if_splits)
    from res None have r: "r = (if cerr \<noteq> None \<or> aerr \<noteq> None
                     then Some (ErrorString (fmt_v cerr @ '' '' @ fmt_v aerr)) else None)"
      by (simp split: if_splits)
    from res None have u': "u' = (if r = None then ?u1\<lparr>UserID := Hex i\<rparr> else ?u1)"
      by (auto split: if_splits)
    have ev: "new_events w w' =
        upsert_run ''cards'' (Suc (counter w)) cids cerr @ upsert_run ''addresses'' (counter w1) aids aerr
        @ \<lparr>coll = ''customers'', query = UpsertId (oid_of_nat (counter w)), outcome = x\<rparr>
        # (if x = None then []
           else [\<lparr>coll = ''addresses'', query = RemoveAllIn aids, outcome = undefined\<rparr>,
                 \<lparr>coll = ''cards'', query = RemoveAllIn cids, outcome = undefined\<rparr>])"
      using t3 w' None by (intro new_events_append) (simp add: i_def)
    show ?thesis
      apply (rule exI [of _ cids], rule exI [of _ cerr], rule exI [of _ aids], rule exI [of _ aerr])
      apply (rule exI [of _ "counter w1"], rule exI [of _ x], rule exI [of _ undefined], rule exI [of _ undefined])
      using ev lens r u' st keys3 w' None cs as
      by (simp add: i_def)
  next
    case (Some e)
    from res Some have w': "w' = w5" and r: "r = Some e" and u': "u' = ?u1" by simp_all
    have ev: "new_events w w' =
        upsert_run ''cards'' (Suc (counter w)) cids cerr @ upsert_run ''addresses'' (counter w1) aids aerr
        @ \<lparr>coll = ''customers'', query = UpsertId (oid_of_nat (counter w)), outcome = x\<rparr>
        # (if x = None then []
           else [\<lparr>coll = ''addresses'', query = RemoveAllIn aids, outcome = o1\<rparr>,
                 \<lparr>coll = ''cards'', query = RemoveAllIn cids, outcome = o2\<rparr>])"
      using t3 t5 w' Some by (intro new_events_append) (simp add: i_def)
    have cu: "customers w' = customers w"
      using w' r2'(4) r1'(4) p'(6) Some c' a' by (simp add: w0_def)
    have ra: "o1 = None \<longrightarrow> (\<forall>k \<in> set aids. map_of (addresses w') k = None)"
      using w' r2'(5) r1'(6) by (simp add: map_of_removed)
    have rc: "o2 = None \<longrightarrow> (\<forall>k \<in> set cids. map_of (cards w') k = None)"
      using w' r2'(6) by (simp add: map_of_removed)
    show ?thesis
      apply (rule exI [of _ cids], rule exI [of _ cerr], rule exI [of _ aids], rule exI [of _ aerr])
      apply (rule exI [of _ "counter w1"], rule exI [of _ x], rule exI [of _ o1], rule exI [of _ o2])
      using ev lens r u' cu ra rc Some cs as
      by simp
  qed
qed

section \<open>Reading the trace of a run\<close>

lemma created_simps [simp]:
  "created c [] = []"
  "created c (xs @ ys) = created c xs @ created c ys"
  "created c (\<lparr>coll = c', query = UpsertId k, outcome = x\<rparr> # evs)
     = (if c' = c \<and> x = None then [k] else []) @ created c evs"
  "created c (\<lparr>coll = c', query = RemoveAllIn ks, outcome = x\<rparr> # evs) = created c evs"
  by (simp_all add: created_def)

lemma created_upsert_run [simp]:
  "created c (upsert_run c' n ids err) = (if c' = c then ids else [])"
  by (induction ids) (auto simp: upsert_run_def created_def split: option.splits)

lemma upserts_simps [simp]:
  "upserts c [] = []"
  "upserts c (xs @ ys) = upserts c xs @ upserts c ys"
  "upserts c (\<lparr>coll = c', query = UpsertId k, outcome = x\<rparr> # evs)
     = (if c' = c then [\<lparr>coll = c', query = UpsertId k, outcome = x\<rparr>] else []) @ upserts c evs"
  "upserts c (\<lparr>coll = c', query = RemoveAllIn ks, outcome = x\<rparr> # evs) = upserts c evs"
  by (simp_all add: upserts_def)

lemma upserts_upsert_run [simp]:
  "upserts c (upsert_run c' n ids err) = (if c' = c then upsert_run c' n ids err else [])"
  by (induction ids) (auto simp: upsert_run_def upserts_def split: option.splits)

lemma failure_append:
  "failure c (xs @ ys) = (case failure c xs of None \<Rightarrow> failure c ys | Some e \<Rightarrow> Some e)"
proof (cases "filter (\<lambda>e. coll e = c \<and> outcome e \<noteq> None) xs")
  case Nil
  then show ?thesis by (simp add: failure_def)
next
  case (Cons e es)
  then have "e \<in> set (filter (\<lambda>e. coll e = c \<and> outcome e \<noteq> None) xs)" by simp
  then have "outcome e \<noteq> None" by simp
  with Cons show ?thesis by (auto simp: failure_def)
qed

lemma failure_upsert_run [simp]:
  "failure c (upsert_run c' n ids err) = (if c' = c then err else None)"
  by (auto simp: upsert_run_def failure_def filter_empty_conv split: option.splits)

lemma failure_single [simp]:
  "failure c [\<lparr>coll = c', query = q, outcome = x\<rparr>] = (if c' = c then x else None)"
  by (auto simp: failure_def)

lemma in_upsert_run:
  "e \<in> set (upsert_run c n ids err) \<Longrightarrow> coll e = c \<and> (\<exists>k. query e = UpsertId k)"
  by (auto simp: upsert_run_def split: option.splits)

lemma upsert_run_length:
  "length (upsert_run c n ids err) = length ids + (if err = None then 0 else 1)"
  by (auto simp: upsert_run_def split: option.splits)

lemma upsert_run_butlast:
  assumes "e \<in> set (butlast (upsert_run c n ids err))"
  shows "outcome e = None"
proof (cases err)
  case None
  with assms have "e \<in> set (map (\<lambda>i. \<lparr>coll = c, query = UpsertId i, outcome = None\<rparr>) ids)"
    by (auto simp: upsert_run_def dest: in_set_butlastD)
  then show ?thesis by auto
next
  case (Some x)
  with assms have "e \<in> set (map (\<lambda>i. \<lparr>coll = c, query = UpsertId i, outcome = None\<rparr>) ids)"
    by (simp add: upsert_run_def butlast_append)
  then show ?thesis by auto
qed

lemma customers_event:
  assumes "\<lparr>coll = ''customers'', query = UpsertId i, outcome = y\<rparr>
             \<in> set (upsert_run ''cards'' n1 cids cerr @ upsert_run ''addresses'' n2 aids aerr
                 @ \<lparr>coll = ''customers'', query = UpsertId j, outcome = x\<rparr>
                 # (if x = None then []
                    else [\<lparr>coll = ''addresses'', query = RemoveAllIn aids, outcome = o1\<rparr>,
                          \<lparr>coll = ''cards'', query = RemoveAllIn cids, outcome = o2\<rparr>]))"
  shows "i = j \<and> y = x"
  using assms by (auto dest: in_upsert_run split: if_splits)

section \<open>Three runs of CreateUser\<close>

lemmas run_defs = CreateUser_def NewObjectId_def UpsertId_cards_def UpsertId_addresses_def
  UpsertId_customers_def RemoveAll_addresses_def RemoveAll_cards_def cleanAttributes_def
  roundtrip_def reply_def Let_def New_def bson_MongoUser_def bson_MongoAddress_def
  bson_MongoCard_def store0_def alice_def fmt_v_def eval_nat_numeral

lemma run_card_down:
  "CreateUser alice card_down =
   ((Some (ErrorString ''connection reset <nil>''),
     alice\<lparr>Addresses := [\<lparr>postal = ''1 High Street'', ID = Hex (oid_of_nat 2)\<rparr>]\<rparr>),
    \<lparr>customers = [(oid_of_nat 0, \<lparr>User = alice\<lparr>Addresses := [], Cards := []\<rparr>, ID = oid_of_nat 0,
                      AddressIDs = [oid_of_nat 2], CardIDs = []\<rparr>)],
     addresses = [(oid_of_nat 2, \<lparr>Address = \<lparr>postal = ''1 High Street'', ID = ''''\<rparr>, ID = oid_of_nat 2\<rparr>)],
     cards = [], counter = 3, faults = [],
     trace = [\<lparr>coll = ''cards'', query = UpsertId (oid_of_nat 1), outcome = Some (ErrIO ''connection reset'')\<rparr>,
              \<lparr>coll = ''addresses'', query = UpsertId (oid_of_nat 2), outcome = None\<rparr>,
              \<lparr>coll = ''customers'', query = UpsertId (oid_of_nat 0), outcome = None\<rparr>]\<rparr>)"
  by (simp add: run_defs card_down_def)

lemma run_second_card_down:
  "CreateUser alice second_card_down =
   ((Some (ErrorString ''connection reset <nil>''),
     alice\<lparr>Addresses := [\<lparr>postal = ''1 High Street'', ID = Hex (oid_of_nat 3)\<rparr>],
           Cards := [\<lparr>payment = ''4111'', ID = Hex (oid_of_nat 1)\<rparr>, \<lparr>payment = ''5500'', ID = ''''\<rparr>]\<rparr>),
    \<lparr>customers = [(oid_of_nat 0, \<lparr>User = alice\<lparr>Addresses := [], Cards := []\<rparr>, ID = oid_of_nat 0,
                      AddressIDs = [oid_of_nat 3], CardIDs = [oid_of_nat 1]\<rparr>)],
     addresses = [(oid_of_nat 3, \<lparr>Address = \<lparr>postal = ''1 High Street'', ID = ''''\<rparr>, ID = oid_of_nat 3\<rparr>)],
     cards = [(oid_of_nat 1, \<lparr>Card = \<lparr>payment = ''4111'', ID = ''''\<rparr>, ID = oid_of_nat 1\<rparr>)],
     counter = 4, faults = [],
     trace = [\<lparr>coll = ''cards'', query = UpsertId (oid_of_nat 1), outcome = None\<rparr>,
              \<lparr>coll = ''cards'', query = UpsertId (oid_of_nat 2), outcome = Some (ErrIO ''connection reset'')\<rparr>,
              \<lparr>coll = ''addresses'', query = UpsertId (oid_of_nat 3), outcome = None\<rparr>,
              \<lparr>coll = ''customers'', query = UpsertId (oid_of_nat 0), outcome = None\<rparr>]\<rparr>)"
  by (simp add: run_defs second_card_down_def)

lemma run_user_down:
  "CreateUser alice user_down =
   ((Some (ErrIO ''write refused''),
     alice\<lparr>Addresses := [\<lparr>postal = ''1 High Street'', ID = Hex (oid_of_nat 2)\<rparr>]\<rparr>),
    \<lparr>customers = [],
     addresses = [(oid_of_nat 2, \<lparr>Address = \<lparr>postal = ''1 High Street'', ID = ''''\<rparr>, ID = oid_of_nat 2\<rparr>)],
     cards = [], counter = 3, faults = [],
     trace = [\<lparr>coll = ''cards'', query = UpsertId (oid_of_nat 1), outcome = Some (ErrIO ''connection reset'')\<rparr>,
              \<lparr>coll = ''addresses'', query = UpsertId (oid_of_nat 2), outcome = None\<rparr>,
              \<lparr>coll = ''customers'', query = UpsertId (oid_of_nat 0), outcome = Some (ErrIO ''write refused'')\<rparr>,
              \<lparr>coll = ''addresses'', query = RemoveAllIn [oid_of_nat 2], outcome = Some (ErrIO ''timeout'')\<rparr>,
              \<lparr>coll = ''cards'', query = RemoveAllIn [], outcome = None\<rparr>]\<rparr>)"
  by (simp add: run_defs user_down_def)

section \<open>CreateUser\<close>

text \<open>
  C1 (amended). Every run of CreateUser makes, in this order: one upsert into
  \<open>cards\<close> for each nested card in the order of the payload, the k-th of them under
  the k-th identifier generated after the user's own, until the first of these upserts that
  fails or the end of the list; then, whatever happened to the cards, one upsert into
  \<open>addresses\<close> for each nested address in the same way, under the identifiers
  generated next; then, whatever happened to either, the upsert of the user record under
  the identifier generated first. Only the last upsert of each kind can have failed, and it
  has failed exactly when fewer documents were written than items supplied: a failure on
  one card prevents the attempts on the cards after it, and on those alone. Any call after
  the upsert of the user record is a bulk removal, and there is none when that upsert
  worked. The error returned is that of the user-record upsert when it failed; otherwise,
  when a card or an address failed, the message made of the two first failures (cards,
  then addresses); otherwise none. When the user-record upsert worked, the two collections
  hold, besides what they held, the items written, each under its own identifier.
\<close>

theorem CreateUser_attempts:
  assumes "CreateUser u w = ((r, u'), w')"
  shows "\<exists>cids cerr aids aerr x rest.
      new_events w w' =
        upsert_run ''cards'' (Suc (counter w)) cids cerr
        @ upsert_run ''addresses''
            (Suc (counter w) + length cids + (if cerr = None then 0 else 1)) aids aerr
        @ \<lparr>coll = ''customers'', query = UpsertId (oid_of_nat (counter w)), outcome = x\<rparr> # rest
    \<and> cids = map oid_of_nat [Suc (counter w) ..< Suc (counter w) + length cids]
    \<and> aids = map oid_of_nat
               [Suc (counter w) + length cids + (if cerr = None then 0 else 1)
                ..< Suc (counter w) + length cids + (if cerr = None then 0 else 1) + length aids]
    \<and> (cerr = None \<longrightarrow> length cids = length (Cards u))
    \<and> (cerr \<noteq> None \<longrightarrow> length cids < length (Cards u))
    \<and> (aerr = None \<longrightarrow> length aids = length (Addresses u))
    \<and> (aerr \<noteq> None \<longrightarrow> length aids < length (Addresses u))
    \<and> (\<forall>ev \<in> set rest. \<exists>ks. query ev = RemoveAllIn ks)
    \<and> (x = None \<longrightarrow> rest = [])
    \<and> r = (case x of
             Some e \<Rightarrow> Some e
           | None \<Rightarrow> if cerr \<noteq> None \<or> aerr \<noteq> None
                     then Some (ErrorString (fmt_v cerr @ '' '' @ fmt_v aerr)) else None)
    \<and> (x = None \<longrightarrow>
          cards w' = foldl (\<lambda>al (i, c). AList.update i \<lparr>Card = c\<lparr>Card.ID := ''''\<rparr>, ID = i\<rparr> al)
                       (cards w) (zip cids (Cards u))
          \<and> addresses w'
              = foldl (\<lambda>al (i, a). AList.update i \<lparr>Address = a\<lparr>Address.ID := ''''\<rparr>, ID = i\<rparr> al)
                  (addresses w) (zip aids (Addresses u)))"
proof -
  define i where "i = oid_of_nat (counter w)"
  define w0 where "w0 = w\<lparr>counter := Suc (counter w)\<rparr>"
  have n: "NewObjectId w = (i, w0)" by (simp add: NewObjectId_def i_def w0_def)
  obtain cids cerr cs w1 where c: "createCards (Cards u) w0 = ((cids, cerr, cs), w1)"
    by (cases "createCards (Cards u) w0") auto
  obtain aids aerr as w2 where a: "createAddresses (Addresses u) w1 = ((aids, aerr, as), w2)"
    by (cases "createAddresses (Addresses u) w1") auto
  let ?u1 = "u\<lparr>Addresses := as, Cards := cs\<rparr>"
  let ?mu = "\<lparr>User = ?u1, ID = i, AddressIDs = aids, CardIDs = cids\<rparr>"
  obtain x w3 where p: "UpsertId_customers i ?mu w2 = (x, w3)"
    by (cases "UpsertId_customers i ?mu w2")
  obtain o1 w4 where r1: "RemoveAll_addresses aids w3 = (o1, w4)"
    by (cases "RemoveAll_addresses aids w3")
  obtain o2 w5 where r2: "RemoveAll_cards cids w4 = (o2, w5)"
    by (cases "RemoveAll_cards cids w4")
  note c' = createCards_run [OF c]
  note a' = createAddresses_run [OF a]
  note ce = createCards_exact [OF c]
  note ae = createAddresses_exact [OF a]
  note p' = UpsertId_customers_run [OF p]
  note r1' = RemoveAll_addresses_run [OF r1]
  note r2' = RemoveAll_cards_run [OF r2]
  let ?n = "Suc (counter w) + length cids + (if cerr = None then 0 else 1)"
  let ?rest = "if x = None then []
           else [\<lparr>coll = ''addresses'', query = RemoveAllIn aids, outcome = o1\<rparr>,
                 \<lparr>coll = ''cards'', query = RemoveAllIn cids, outcome = o2\<rparr>]"
  have res: "((r, u'), w') =
      (case x of
         Some e \<Rightarrow> ((Some e, ?u1), w5)
       | None \<Rightarrow> if cerr \<noteq> None \<or> aerr \<noteq> None
                 then ((Some (ErrorString (fmt_v cerr @ '' '' @ fmt_v aerr)), ?u1), w3)
                 else ((None, ?u1\<lparr>UserID := Hex i\<rparr>), w3))"
    using assms n c a p r1 r2
    by (auto simp: CreateUser_def Let_def New_def cleanAttributes_def
          split: option.splits if_splits)
  have c1: "counter w1 = ?n" using ce by (simp add: w0_def)
  have t3: "trace w3 = trace w @ upsert_run ''cards'' (Suc (counter w)) cids cerr
              @ upsert_run ''addresses'' ?n aids aerr
              @ [\<lparr>coll = ''customers'', query = UpsertId i, outcome = x\<rparr>]"
    using c' a' p'(1) c1 by (simp add: w0_def)
  have t5: "trace w5 = trace w3 @ [\<lparr>coll = ''addresses'', query = RemoveAllIn aids, outcome = o1\<rparr>,
                 \<lparr>coll = ''cards'', query = RemoveAllIn cids, outcome = o2\<rparr>]"
    using r1'(1) r2'(1) by simp
  have w': "w' = (if x = None then w3 else w5)"
    using res by (auto split: option.splits if_splits)
  have ev: "new_events w w' =
        upsert_run ''cards'' (Suc (counter w)) cids cerr @ upsert_run ''addresses'' ?n aids aerr
        @ \<lparr>coll = ''customers'', query = UpsertId (oid_of_nat (counter w)), outcome = x\<rparr> # ?rest"
    unfolding w' using t3 t5 by (intro new_events_append) (simp add: i_def)
  have ci: "cids = map oid_of_nat [Suc (counter w) ..< Suc (counter w) + length cids]"
    using ce [THEN conjunct1] by (simp add: w0_def)
  have ai: "aids = map oid_of_nat [?n ..< ?n + length aids]"
    using ae [THEN conjunct1] unfolding c1 by simp
  have lens: "(cerr = None \<longrightarrow> length cids = length (Cards u))
    \<and> (cerr \<noteq> None \<longrightarrow> length cids < length (Cards u))
    \<and> (aerr = None \<longrightarrow> length aids = length (Addresses u))
    \<and> (aerr \<noteq> None \<longrightarrow> length aids < length (Addresses u))"
    using c' a' by blast
  have rest: "\<forall>ev \<in> set ?rest. \<exists>ks. query ev = RemoveAllIn ks" by simp
  have rest0: "x = None \<longrightarrow> ?rest = []" by simp
  have r: "r = (case x of
             Some e \<Rightarrow> Some e
           | None \<Rightarrow> if cerr \<noteq> None \<or> aerr \<noteq> None
                     then Some (ErrorString (fmt_v cerr @ '' '' @ fmt_v aerr)) else None)"
    using res by (auto split: option.splits if_splits)
  have st: "x = None \<longrightarrow>
          cards w' = foldl (\<lambda>al (i, c). AList.update i \<lparr>Card = c\<lparr>Card.ID := ''''\<rparr>, ID = i\<rparr> al)
                       (cards w) (zip cids (Cards u))
          \<and> addresses w'
              = foldl (\<lambda>al (i, a). AList.update i \<lparr>Address = a\<lparr>Address.ID := ''''\<rparr>, ID = i\<rparr> al)
                  (addresses w) (zip aids (Addresses u))"
  proof
    assume "x = None"
    then have "w' = w3" using w' by simp
    moreover have "cards w3 = cards w1" using p'(5) a' by simp
    moreover have "addresses w3 = addresses w2" using p'(4) by simp
    moreover have "addresses w1 = addresses w" using c' by (simp add: w0_def)
    moreover have "cards w0 = cards w" by (simp add: w0_def)
    ultimately show "cards w' = foldl (\<lambda>al (i, c). AList.update i \<lparr>Card = c\<lparr>Card.ID := ''''\<rparr>, ID = i\<rparr> al)
                       (cards w) (zip cids (Cards u))
          \<and> addresses w'
              = foldl (\<lambda>al (i, a). AList.update i \<lparr>Address = a\<lparr>Address.ID := ''''\<rparr>, ID = i\<rparr> al)
                  (addresses w) (zip aids (Addresses u))"
      using ce [THEN conjunct2, THEN conjunct2] ae [THEN conjunct2, THEN conjunct2] by simp
  qed
  show ?thesis
    apply (rule exI [of _ cids], rule exI [of _ cerr], rule exI [of _ aids], rule exI [of _ aerr])
    apply (rule exI [of _ x], rule exI [of _ ?rest])
    apply (intro conjI)
    apply (rule ev, rule ci, rule ai)
    using lens rest rest0 r st by blast+
qed

theorem CreateUser_attempts_witness:
  "new_events card_down (snd (CreateUser alice card_down))
     = [\<lparr>coll = ''cards'', query = UpsertId (oid_of_nat 1),
          outcome = Some (ErrIO ''connection reset'')\<rparr>,
        \<lparr>coll = ''addresses'', query = UpsertId (oid_of_nat 2), outcome = None\<rparr>,
        \<lparr>coll = ''customers'', query = UpsertId (oid_of_nat 0), outcome = None\<rparr>]
   \<and> fst (fst (CreateUser alice card_down)) = Some (ErrorString ''connection reset <nil>'')
   \<and> addresses (snd (CreateUser alice card_down))
       = [(oid_of_nat 2, \<lparr>Address = \<lparr>postal = ''1 High Street'', ID = ''''\<rparr>, ID = oid_of_nat 2\<rparr>)]"
  using CreateUser_attempts [of alice card_down "fst (fst (CreateUser alice card_down))"
      "snd (fst (CreateUser alice card_down))" "snd (CreateUser alice card_down)"]
  unfolding run_card_down
  by (simp add: new_events_def card_down_def store0_def)

text \<open>
  The claim as first stated (a failure on one nested item never prevents the attempt on the
  remaining ones) fails on a user with two cards when the first upsert into \<open>cards\<close>
  fails: that upsert is the only one made into \<open>cards\<close>, and no card is stored.
\<close>

theorem CreateUser_stops_at_failed_card:
  "length (Cards alice) = 2
   \<and> upserts ''cards'' (new_events card_down (snd (CreateUser alice card_down)))
       = [\<lparr>coll = ''cards'', query = UpsertId (oid_of_nat 1),
           outcome = Some (ErrIO ''connection reset'')\<rparr>]
   \<and> cards (snd (CreateUser alice card_down)) = []"
  unfolding run_card_down
  by (simp add: new_events_def card_down_def store0_def alice_def)

text \<open>
  C2. Whenever the upsert of the user record fails in CreateUser, with any error \<open>e\<close>,
  CreateUser returns \<open>e\<close> itself, and the last two calls of the run are the compensating
  removals: one \<open>RemoveAll\<close> on \<open>addresses\<close> and one on \<open>cards\<close>, for exactly the
  identifiers of the documents this call had written. Their outcomes \<open>o1\<close> and \<open>o2\<close>
  are arbitrary and appear nowhere in the result: an error of the cleanup is discarded.
  Where a removal worked, none of the documents it names is left in its collection.
\<close>

theorem CreateUser_upsert_failure:
  assumes "CreateUser u w = ((r, u'), w')"
    and "\<lparr>coll = ''customers'', query = UpsertId i, outcome = Some e\<rparr> \<in> set (new_events w w')"
  shows "r = Some e
       \<and> (\<exists>o1 o2.
            drop (length (new_events w w') - 2) (new_events w w')
              = [\<lparr>coll = ''addresses'',
                   query = RemoveAllIn (created ''addresses'' (new_events w w')), outcome = o1\<rparr>,
                 \<lparr>coll = ''cards'',
                   query = RemoveAllIn (created ''cards'' (new_events w w')), outcome = o2\<rparr>]
            \<and> (o1 = None \<longrightarrow>
                  (\<forall>k \<in> set (created ''addresses'' (new_events w w')). map_of (addresses w') k = None))
            \<and> (o2 = None \<longrightarrow>
                  (\<forall>k \<in> set (created ''cards'' (new_events w w')). map_of (cards w') k = None)))"
proof -
  from CreateUser_run [OF assms(1)] obtain cids cerr aids aerr n x o1 o2 where
    ev: "new_events w w' =
        upsert_run ''cards'' (Suc (counter w)) cids cerr @ upsert_run ''addresses'' n aids aerr
        @ \<lparr>coll = ''customers'', query = UpsertId (oid_of_nat (counter w)), outcome = x\<rparr>
        # (if x = None then []
           else [\<lparr>coll = ''addresses'', query = RemoveAllIn aids, outcome = o1\<rparr>,
                 \<lparr>coll = ''cards'', query = RemoveAllIn cids, outcome = o2\<rparr>])"
    and r: "r = (case x of
             Some e \<Rightarrow> Some e
           | None \<Rightarrow> if cerr \<noteq> None \<or> aerr \<noteq> None
                     then Some (ErrorString (fmt_v cerr @ '' '' @ fmt_v aerr)) else None)"
    and cl: "x \<noteq> None \<longrightarrow>
          customers w' = customers w
          \<and> (o1 = None \<longrightarrow> (\<forall>k \<in> set aids. map_of (addresses w') k = None))
          \<and> (o2 = None \<longrightarrow> (\<forall>k \<in> set cids. map_of (cards w') k = None))"
    by blast
  from assms(2) have x: "x = Some e"
    unfolding ev by (rule customers_event [THEN conjunct2, symmetric])
  have cc: "created ''cards'' (new_events w w') = cids"
    and ca: "created ''addresses'' (new_events w w') = aids"
    by (simp_all add: ev)
  have d: "drop (length (new_events w w') - 2) (new_events w w')
         = [\<lparr>coll = ''addresses'', query = RemoveAllIn aids, outcome = o1\<rparr>,
            \<lparr>coll = ''cards'', query = RemoveAllIn cids, outcome = o2\<rparr>]"
    by (simp add: ev x)
  show ?thesis
    unfolding cc ca using r x cl d by auto
qed

theorem CreateUser_upsert_failure_witness:
  "\<lparr>coll = ''customers'', query = UpsertId (oid_of_nat 0), outcome = Some (ErrIO ''write refused'')\<rparr>
       \<in> set (new_events user_down (snd (CreateUser alice user_down)))
   \<and> fst (fst (CreateUser alice user_down)) = Some (ErrIO ''write refused'')
   \<and> drop 3 (new_events user_down (snd (CreateUser alice user_down)))
       = [\<lparr>coll = ''addresses'', query = RemoveAllIn [oid_of_nat 2], outcome = Some (ErrIO ''timeout'')\<rparr>,
          \<lparr>coll = ''cards'', query = RemoveAllIn [], outcome = None\<rparr>]"
proof -
  have h: "\<lparr>coll = ''customers'', query = UpsertId (oid_of_nat 0), outcome = Some (ErrIO ''write refused'')\<rparr>
       \<in> set (new_events user_down (snd (CreateUser alice user_down)))"
    unfolding run_user_down by (simp add: new_events_def user_down_def store0_def)
  have t: "drop 3 (new_events user_down (snd (CreateUser alice user_down)))
       = [\<lparr>coll = ''addresses'', query = RemoveAllIn [oid_of_nat 2], outcome = Some (ErrIO ''timeout'')\<rparr>,
          \<lparr>coll = ''cards'', query = RemoveAllIn [], outcome = None\<rparr>]"
    unfolding run_user_down by (simp add: new_events_def user_down_def store0_def)
  from CreateUser_upsert_failure [where u = alice and r = "fst (fst (CreateUser alice user_down))"
      and u' = "snd (fst (CreateUser alice user_down))", OF _ h]
  have "fst (fst (CreateUser alice user_down)) = Some (ErrIO ''write refused'')" by simp
  with h t show ?thesis by simp
qed

text \<open>
  C3. Whenever the upsert of the user record works and a nested creation failed, CreateUser
  returns the error whose message is the card-side cause, a space and the address-side
  cause (a side that did not fail reads \<open><nil>\<close>, as \<open>%v\<close> prints it). The user record
  is stored under its new identifier with exactly the identifiers of the documents that
  were written as its references; those documents are all still in their collections, and
  no call of the run is a removal: nothing is rolled back.
\<close>

theorem CreateUser_partial_failure:
  assumes "CreateUser u w = ((r, u'), w')"
    and "\<lparr>coll = ''customers'', query = UpsertId i, outcome = None\<rparr> \<in> set (new_events w w')"
    and "failure ''cards'' (new_events w w') \<noteq> None
         \<or> failure ''addresses'' (new_events w w') \<noteq> None"
  shows "r = Some (ErrorString (fmt_v (failure ''cards'' (new_events w w')) @ '' ''
                                @ fmt_v (failure ''addresses'' (new_events w w'))))
       \<and> map_of (customers w') i
           = Some \<lparr>User = u\<lparr>Addresses := [], Cards := [], UserID := ''''\<rparr>, ID = i,
                   AddressIDs = created ''addresses'' (new_events w w'),
                   CardIDs = created ''cards'' (new_events w w')\<rparr>
       \<and> (\<forall>k \<in> set (created ''cards'' (new_events w w')). map_of (cards w') k \<noteq> None)
       \<and> (\<forall>k \<in> set (created ''addresses'' (new_events w w')). map_of (addresses w') k \<noteq> None)
       \<and> (\<forall>ev \<in> set (new_events w w'). \<exists>k. query ev = UpsertId k)"
proof -
  from CreateUser_run [OF assms(1)] obtain cids cerr aids aerr n x o1 o2 where
    ev: "new_events w w' =
        upsert_run ''cards'' (Suc (counter w)) cids cerr @ upsert_run ''addresses'' n aids aerr
        @ \<lparr>coll = ''customers'', query = UpsertId (oid_of_nat (counter w)), outcome = x\<rparr>
        # (if x = None then []
           else [\<lparr>coll = ''addresses'', query = RemoveAllIn aids, outcome = o1\<rparr>,
                 \<lparr>coll = ''cards'', query = RemoveAllIn cids, outcome = o2\<rparr>])"
    and r: "r = (case x of
             Some e \<Rightarrow> Some e
           | None \<Rightarrow> if cerr \<noteq> None \<or> aerr \<noteq> None
                     then Some (ErrorString (fmt_v cerr @ '' '' @ fmt_v aerr)) else None)"
    and st: "x = None \<longrightarrow>
          map_of (customers w') (oid_of_nat (counter w))
            = Some \<lparr>User = u\<lparr>Addresses := [], Cards := [], UserID := ''''\<rparr>,
                    ID = oid_of_nat (counter w), AddressIDs = aids, CardIDs = cids\<rparr>
          \<and> (\<forall>k \<in> set cids. map_of (cards w') k \<noteq> None)
          \<and> (\<forall>k \<in> set aids. map_of (addresses w') k \<noteq> None)"
    by blast
  from assms(2) have "i = oid_of_nat (counter w) \<and> None = x"
    unfolding ev by (rule customers_event)
  then have i: "i = oid_of_nat (counter w)" and x: "x = None" by simp_all
  have ev': "new_events w w' =
        upsert_run ''cards'' (Suc (counter w)) cids cerr @ upsert_run ''addresses'' n aids aerr
        @ [\<lparr>coll = ''customers'', query = UpsertId (oid_of_nat (counter w)), outcome = None\<rparr>]"
    by (simp add: ev x)
  have cc: "created ''cards'' (new_events w w') = cids"
    and ca: "created ''addresses'' (new_events w w') = aids"
    and fc: "failure ''cards'' (new_events w w') = cerr"
    and fa: "failure ''addresses'' (new_events w w') = aerr"
    by (simp_all add: ev' failure_append split: option.splits)
  have up: "\<forall>ev \<in> set (new_events w w'). \<exists>k. query ev = UpsertId k"
    unfolding ev' by (auto dest: in_upsert_run)
  show ?thesis
    unfolding cc ca fc fa using r x st i up assms(3) [unfolded fc fa] by auto
qed

theorem CreateUser_partial_failure_witness:
  "\<lparr>coll = ''customers'', query = UpsertId (oid_of_nat 0), outcome = None\<rparr>
       \<in> set (new_events second_card_down (snd (CreateUser alice second_card_down)))
   \<and> failure ''cards'' (new_events second_card_down (snd (CreateUser alice second_card_down)))
       = Some (ErrIO ''connection reset'')
   \<and> fst (fst (CreateUser alice second_card_down)) = Some (ErrorString ''connection reset <nil>'')
   \<and> map_of (customers (snd (CreateUser alice second_card_down))) (oid_of_nat 0)
       = Some \<lparr>User = alice\<lparr>Addresses := [], Cards := [], UserID := ''''\<rparr>, ID = oid_of_nat 0,
               AddressIDs = [oid_of_nat 3], CardIDs = [oid_of_nat 1]\<rparr>"
proof -
  have h: "\<lparr>coll = ''customers'', query = UpsertId (oid_of_nat 0), outcome = None\<rparr>
       \<in> set (new_events second_card_down (snd (CreateUser alice second_card_down)))"
    unfolding run_second_card_down by (simp add: new_events_def second_card_down_def store0_def)
  have f: "failure ''cards'' (new_events second_card_down (snd (CreateUser alice second_card_down)))
       = Some (ErrIO ''connection reset'')"
    and fa: "failure ''addresses'' (new_events second_card_down (snd (CreateUser alice second_card_down)))
       = None"
    and cc: "created ''cards'' (new_events second_card_down (snd (CreateUser alice second_card_down)))
       = [oid_of_nat 1]"
    and ca: "created ''addresses'' (new_events second_card_down (snd (CreateUser alice second_card_down)))
       = [oid_of_nat 3]"
    unfolding run_second_card_down
    by (simp_all add: new_events_def second_card_down_def store0_def failure_def created_def)
  from f have g: "failure ''cards'' (new_events second_card_down (snd (CreateUser alice second_card_down))) \<noteq> None
       \<or> failure ''addresses'' (new_events second_card_down (snd (CreateUser alice second_card_down))) \<noteq> None"
    by simp
  from CreateUser_partial_failure [where u = alice and r = "fst (fst (CreateUser alice second_card_down))"
      and u' = "snd (fst (CreateUser alice second_card_down))", OF _ h g]
  show ?thesis using h f by (simp add: f fa cc ca fmt_v_def)
qed

text \<open>
  C10. On the same path (the user record is stored, a nested creation failed) the caller's
  user value is not replaced by the stored record: its \<open>UserID\<close> is what the caller passed
  (empty for a user not yet persisted), although the record is stored under a valid new
  identifier. Its nested entries were assigned in place: the entries whose document was
  written carry the hexadecimal form of the document's identifier in \<open>ID\<close>, the entry that
  failed and those after it are as passed.
\<close>

theorem CreateUser_partial_failure_caller:
  assumes "CreateUser u w = ((r, u'), w')"
    and "\<lparr>coll = ''customers'', query = UpsertId i, outcome = None\<rparr> \<in> set (new_events w w')"
    and "failure ''cards'' (new_events w w') \<noteq> None
         \<or> failure ''addresses'' (new_events w w') \<noteq> None"
  shows "r \<noteq> None \<and> UserID u' = UserID u
       \<and> length i = 12 \<and> map_of (customers w') i \<noteq> None
       \<and> Cards u' = map (\<lambda>(c, k). c\<lparr>Card.ID := Hex k\<rparr>)
                          (zip (Cards u) (created ''cards'' (new_events w w')))
                     @ drop (length (created ''cards'' (new_events w w'))) (Cards u)
       \<and> Addresses u' = map (\<lambda>(a, k). a\<lparr>Address.ID := Hex k\<rparr>)
                          (zip (Addresses u) (created ''addresses'' (new_events w w')))
                     @ drop (length (created ''addresses'' (new_events w w'))) (Addresses u)
       \<and> Username u' = Username u \<and> profile u' = profile u"
proof -
  from CreateUser_run [OF assms(1)] obtain cids cerr aids aerr n x o1 o2 where
    ev: "new_events w w' =
        upsert_run ''cards'' (Suc (counter w)) cids cerr @ upsert_run ''addresses'' n aids aerr
        @ \<lparr>coll = ''customers'', query = UpsertId (oid_of_nat (counter w)), outcome = x\<rparr>
        # (if x = None then []
           else [\<lparr>coll = ''addresses'', query = RemoveAllIn aids, outcome = o1\<rparr>,
                 \<lparr>coll = ''cards'', query = RemoveAllIn cids, outcome = o2\<rparr>])"
    and r: "r = (case x of
             Some e \<Rightarrow> Some e
           | None \<Rightarrow> if cerr \<noteq> None \<or> aerr \<noteq> None
                     then Some (ErrorString (fmt_v cerr @ '' '' @ fmt_v aerr)) else None)"
    and cs: "Cards u' = map (\<lambda>(c, i). c\<lparr>Card.ID := Hex i\<rparr>) (zip (Cards u) cids)
                  @ drop (length cids) (Cards u)"
    and as: "Addresses u' = map (\<lambda>(a, i). a\<lparr>Address.ID := Hex i\<rparr>) (zip (Addresses u) aids)
                      @ drop (length aids) (Addresses u)"
    and fr: "Username u' = Username u \<and> profile u' = profile u"
    and uid: "UserID u' = (if r = None then Hex (oid_of_nat (counter w)) else UserID u)"
    and st: "x = None \<longrightarrow>
          map_of (customers w') (oid_of_nat (counter w))
            = Some \<lparr>User = u\<lparr>Addresses := [], Cards := [], UserID := ''''\<rparr>,
                    ID = oid_of_nat (counter w), AddressIDs = aids, CardIDs = cids\<rparr>
          \<and> (\<forall>k \<in> set cids. map_of (cards w') k \<noteq> None)
          \<and> (\<forall>k \<in> set aids. map_of (addresses w') k \<noteq> None)"
    by blast
  from assms(2) have "i = oid_of_nat (counter w) \<and> None = x"
    unfolding ev by (rule customers_event)
  then have i: "i = oid_of_nat (counter w)" and x: "x = None" by simp_all
  have ev': "new_events w w' =
        upsert_run ''cards'' (Suc (counter w)) cids cerr @ upsert_run ''addresses'' n aids aerr
        @ [\<lparr>coll = ''customers'', query = UpsertId (oid_of_nat (counter w)), outcome = None\<rparr>]"
    by (simp add: ev x)
  have cc: "created ''cards'' (new_events w w') = cids"
    and ca: "created ''addresses'' (new_events w w') = aids"
    and fc: "failure ''cards'' (new_events w w') = cerr"
    and fa: "failure ''addresses'' (new_events w w') = aerr"
    by (simp_all add: ev' failure_append split: option.splits)
  have rn: "r \<noteq> None" using r x assms(3) [unfolded fc fa] by auto
  have li: "length i = 12" by (simp add: i oid_of_nat_def)
  show ?thesis
    unfolding cc ca using rn uid st x i li cs as fr by auto
qed

theorem CreateUser_partial_failure_caller_witness:
  "\<lparr>coll = ''customers'', query = UpsertId (oid_of_nat 0), outcome = None\<rparr>
       \<in> set (new_events second_card_down (snd (CreateUser alice second_card_down)))
   \<and> failure ''cards'' (new_events second_card_down (snd (CreateUser alice second_card_down)))
       = Some (ErrIO ''connection reset'')
   \<and> UserID (snd (fst (CreateUser alice second_card_down))) = ''''
   \<and> map_of (customers (snd (CreateUser alice second_card_down))) (oid_of_nat 0) \<noteq> None
   \<and> Cards (snd (fst (CreateUser alice second_card_down)))
       = [\<lparr>payment = ''4111'', ID = Hex (oid_of_nat 1)\<rparr>, \<lparr>payment = ''5500'', ID = ''''\<rparr>]"
proof -
  have h: "\<lparr>coll = ''customers'', query = UpsertId (oid_of_nat 0), outcome = None\<rparr>
       \<in> set (new_events second_card_down (snd (CreateUser alice second_card_down)))"
    unfolding run_second_card_down by (simp add: new_events_def second_card_down_def store0_def)
  have f: "failure ''cards'' (new_events second_card_down (snd (CreateUser alice second_card_down)))
       = Some (ErrIO ''connection reset'')"
    and cc: "created ''cards'' (new_events second_card_down (snd (CreateUser alice second_card_down)))
       = [oid_of_nat 1]"
    unfolding run_second_card_down
    by (simp_all add: new_events_def second_card_down_def store0_def failure_def created_def)
  from f have g: "failure ''cards'' (new_events second_card_down (snd (CreateUser alice second_card_down))) \<noteq> None
       \<or> failure ''addresses'' (new_events second_card_down (snd (CreateUser alice second_card_down))) \<noteq> None"
    by simp
  from CreateUser_partial_failure_caller [where u = alice and r = "fst (fst (CreateUser alice second_card_down))"
      and u' = "snd (fst (CreateUser alice second_card_down))", OF _ h g]
  have "UserID (snd (fst (CreateUser alice second_card_down))) = UserID alice
      \<and> map_of (customers (snd (CreateUser alice second_card_down))) (oid_of_nat 0) \<noteq> None
      \<and> Cards (snd (fst (CreateUser alice second_card_down)))
          = map (\<lambda>(c, k). c\<lparr>Card.ID := Hex k\<rparr>) (zip (Cards alice) [oid_of_nat 1])
            @ drop (length [oid_of_nat 1]) (Cards alice)"
    unfolding cc by simp
  then show ?thesis using h f by (simp add: alice_def)
qed

section \<open>The runs of CreateCard and CreateAddress\<close>

lemma Update_addToSet_run:
  assumes "Update_addToSet uid attr i w = (r, w')"
  shows "trace w' = trace w @ [\<lparr>coll = ''customers'', query = UpdateAddToSet uid attr i, outcome = r\<rparr>]"
    and "counter w' = counter w" and "faults w' = tl (faults w)"
    and "addresses w' = addresses w" and "cards w' = cards w"
  using assms
  by (auto simp: Update_addToSet_def roundtrip_def reply_def
           split: list.splits option.splits)

lemma Update_addToSet_exact:
  assumes "Update_addToSet uid attr i w = (r, w')"
  shows "case head_fault w of
           Some e \<Rightarrow> r = Some e \<and> customers w' = customers w
         | None \<Rightarrow>
             (case map_of (customers w) uid of
                None \<Rightarrow> r = Some ErrNotFound \<and> customers w' = customers w
              | Some d \<Rightarrow> r = None
                  \<and> customers w' = AList.update uid (addToSet attr i d) (customers w))"
  using assms
  by (auto simp: Update_addToSet_def roundtrip_def reply_def head_fault_def
           split: list.splits option.splits)

lemma CreateCard_exact:
  assumes "CreateCard ca userid w = ((r, ca'), w')"
  shows "(userid \<noteq> '''' \<and> \<not> IsObjectIdHex userid \<longrightarrow>
            r = Some (ErrorString ''Invalid Id Hex'') \<and> ca' = ca \<and> w' = w)
       \<and> (userid = '''' \<or> IsObjectIdHex userid \<longrightarrow>
            (case head_fault w of
               Some e \<Rightarrow>
                 new_events w w'
                   = [\<lparr>coll = ''cards'', query = UpsertId (oid_of_nat (counter w)), outcome = Some e\<rparr>]
                 \<and> r = Some e \<and> ca' = ca \<and> cards w' = cards w \<and> customers w' = customers w
             | None \<Rightarrow>
                 cards w' = AList.update (oid_of_nat (counter w))
                              \<lparr>Card = ca\<lparr>Card.ID := ''''\<rparr>, ID = oid_of_nat (counter w)\<rparr> (cards w)
                 \<and> (if userid = ''''
                    then new_events w w'
                           = [\<lparr>coll = ''cards'', query = UpsertId (oid_of_nat (counter w)), outcome = None\<rparr>]
                         \<and> r = None \<and> ca' = ca\<lparr>Card.ID := Hex (oid_of_nat (counter w))\<rparr>
                         \<and> customers w' = customers w
                    else \<exists>uid. ObjectIdHex userid = Some uid
                         \<and> new_events w w'
                             = [\<lparr>coll = ''cards'', query = UpsertId (oid_of_nat (counter w)), outcome = None\<rparr>,
                                \<lparr>coll = ''customers'',
                                  query = UpdateAddToSet uid ''cards'' (oid_of_nat (counter w)),
                                  outcome = r\<rparr>]
                         \<and> (case head_fault (w\<lparr>faults := tl (faults w)\<rparr>) of
                              Some e \<Rightarrow> r = Some e \<and> ca' = ca \<and> customers w' = customers w
                            | None \<Rightarrow>
                                (case map_of (customers w) uid of
                                   None \<Rightarrow> r = Some ErrNotFound \<and> ca' = ca
                                            \<and> customers w' = customers w
                                 | Some d \<Rightarrow> r = None
                                     \<and> ca' = ca\<lparr>Card.ID := Hex (oid_of_nat (counter w))\<rparr>
                                     \<and> customers w'
                                         = AList.update uid
                                             (d\<lparr>CardIDs :=
                                                  (if oid_of_nat (counter w) \<in> set (CardIDs d)
                                                   then CardIDs d
                                                   else CardIDs d @ [oid_of_nat (counter w)])\<rparr>)
                                             (customers w))))))"
proof (cases "userid \<noteq> '''' \<and> \<not> IsObjectIdHex userid")
  case True
  with assms show ?thesis by (simp add: CreateCard_def)
next
  case False
  define i where "i = oid_of_nat (counter w)"
  define w1 where "w1 = w\<lparr>counter := Suc (counter w)\<rparr>"
  have n: "NewObjectId w = (i, w1)" by (simp add: NewObjectId_def i_def w1_def)
  obtain x w2 where u: "UpsertId_cards i \<lparr>Card = ca, ID = i\<rparr> w1 = (x, w2)"
    by (cases "UpsertId_cards i \<lparr>Card = ca, ID = i\<rparr> w1")
  note u' = UpsertId_cards_run [OF u]
  have x: "x = head_fault w" using outcome_is_fault(1) [OF u] by (simp add: w1_def head_fault_def)
  have t2: "trace w2 = trace w @ [\<lparr>coll = ''cards'', query = UpsertId i, outcome = x\<rparr>]"
    using u'(1) by (simp add: w1_def)
  have k2: "customers w2 = customers w" using u'(4) by (simp add: w1_def)
  show ?thesis
  proof (cases x)
    case (Some e)
    with assms False n u have "r = Some e" "ca' = ca" "w' = w2"
      by (auto simp: CreateCard_def Let_def)
    moreover have "new_events w w2 = [\<lparr>coll = ''cards'', query = UpsertId i, outcome = Some e\<rparr>]"
      using t2 Some by (intro new_events_append) simp
    moreover have "cards w2 = cards w" using u'(6) Some by (simp add: w1_def)
    ultimately show ?thesis using False k2 x [symmetric] Some by (auto simp: i_def)
  next
    case None
    have st: "cards w2 = AList.update i \<lparr>Card = ca\<lparr>Card.ID := ''''\<rparr>, ID = i\<rparr> (cards w)"
      using u'(6) None by (simp add: bson_MongoCard_def w1_def)
    have e2: "new_events w w2 = [\<lparr>coll = ''cards'', query = UpsertId i, outcome = None\<rparr>]"
      using t2 None by (intro new_events_append) simp
    show ?thesis
    proof (cases "userid = ''''")
      case True
      with assms n u None have "r = None" "ca' = ca\<lparr>Card.ID := Hex i\<rparr>" "w' = w2"
        by (auto simp: CreateCard_def Let_def AddID_card_def)
      with True st e2 k2 x [symmetric] None show ?thesis by (auto simp: i_def)
    next
      case nonempty: False
      with False have "IsObjectIdHex userid" by simp
      then obtain uid where uid: "ObjectIdHex userid = Some uid"
        using IsObjectIdHex_ObjectIdHex by blast
      obtain y w3 where l: "Update_addToSet uid ''cards'' i w2 = (y, w3)"
        by (cases "Update_addToSet uid ''cards'' i w2")
      note l' = Update_addToSet_run [OF l]
      note le = Update_addToSet_exact [OF l]
      have h2: "head_fault w2 = head_fault (w\<lparr>faults := tl (faults w)\<rparr>)"
        using u'(3) by (simp add: head_fault_def w1_def)
      from assms False nonempty n u None uid l
      have res: "r = y" "ca' = (if y = None then ca\<lparr>Card.ID := Hex i\<rparr> else ca)" "w' = w3"
        by (auto simp: CreateCard_def Let_def AddID_card_def appendAttributeId_def
              split: option.splits)
      have ev: "new_events w w3 = [\<lparr>coll = ''cards'', query = UpsertId i, outcome = None\<rparr>,
                    \<lparr>coll = ''customers'', query = UpdateAddToSet uid ''cards'' i, outcome = y\<rparr>]"
        using t2 None l'(1) by (intro new_events_append) simp
      have st3: "cards w3 = AList.update i \<lparr>Card = ca\<lparr>Card.ID := ''''\<rparr>, ID = i\<rparr> (cards w)"
        using st l'(5) by simp
      have link: "case head_fault (w\<lparr>faults := tl (faults w)\<rparr>) of
                    Some e \<Rightarrow> r = Some e \<and> ca' = ca \<and> customers w' = customers w
                  | None \<Rightarrow>
                      (case map_of (customers w) uid of
                         None \<Rightarrow> r = Some ErrNotFound \<and> ca' = ca \<and> customers w' = customers w
                       | Some d \<Rightarrow> r = None \<and> ca' = ca\<lparr>Card.ID := Hex i\<rparr>
                           \<and> customers w'
                               = AList.update uid
                                   (d\<lparr>CardIDs := (if i \<in> set (CardIDs d) then CardIDs d
                                                  else CardIDs d @ [i])\<rparr>)
                                   (customers w))"
        using le unfolding h2 k2 res
        by (auto simp: addToSet_def split: option.splits)
      show ?thesis
        using nonempty False uid x [symmetric] None st3 ev link unfolding res(3) res(1) i_def
        by (auto split: option.splits)
    qed
  qed
qed

lemma CreateAddress_exact:
  assumes "CreateAddress ca userid w = ((r, ca'), w')"
  shows "(userid \<noteq> '''' \<and> \<not> IsObjectIdHex userid \<longrightarrow>
            r = Some (ErrorString ''Invalid Id Hex'') \<and> ca' = ca \<and> w' = w)
       \<and> (userid = '''' \<or> IsObjectIdHex userid \<longrightarrow>
            (case head_fault w of
               Some e \<Rightarrow>
                 new_events w w'
                   = [\<lparr>coll = ''addresses'', query = UpsertId (oid_of_nat (counter w)), outcome = Some e\<rparr>]
                 \<and> r = Some e \<and> ca' = ca \<and> addresses w' = addresses w \<and> customers w' = customers w
             | None \<Rightarrow>
                 addresses w' = AList.update (oid_of_nat (counter w))
                              \<lparr>Address = ca\<lparr>Address.ID := ''''\<rparr>, ID = oid_of_nat (counter w)\<rparr> (addresses w)
                 \<and> (if userid = ''''
                    then new_events w w'
                           = [\<lparr>coll = ''addresses'', query = UpsertId (oid_of_nat (counter w)), outcome = None\<rparr>]
                         \<and> r = None \<and> ca' = ca\<lparr>Address.ID := Hex (oid_of_nat (counter w))\<rparr>
                         \<and> customers w' = customers w
                    else \<exists>uid. ObjectIdHex userid = Some uid
                         \<and> new_events w w'
                             = [\<lparr>coll = ''addresses'', query = UpsertId (oid_of_nat (counter w)), outcome = None\<rparr>,
                                \<lparr>coll = ''customers'',
                                  query = UpdateAddToSet uid ''addresses'' (oid_of_nat (counter w)),
                                  outcome = r\<rparr>]
                         \<and> (case head_fault (w\<lparr>faults := tl (faults w)\<rparr>) of
                              Some e \<Rightarrow> r = Some e \<and> ca' = ca \<and> customers w' = customers w
                            | None \<Rightarrow>
                                (case map_of (customers w) uid of
                                   None \<Rightarrow> r = Some ErrNotFound \<and> ca' = ca
                                            \<and> customers w' = customers w
                                 | Some d \<Rightarrow> r = None
                                     \<and> ca' = ca\<lparr>Address.ID := Hex (oid_of_nat (counter w))\<rparr>
                                     \<and> customers w'
                                         = AList.update uid
                                             (d\<lparr>AddressIDs :=
                                                  (if oid_of_nat (counter w) \<in> set (AddressIDs d)
                                                   then AddressIDs d
                                                   else AddressIDs d @ [oid_of_nat (counter w)])\<rparr>)
                                             (customers w))))))"
proof (cases "userid \<noteq> '''' \<and> \<not> IsObjectIdHex userid")
  case True
  with assms show ?thesis by (simp add: CreateAddress_def)
next
  case False
  define i where "i = oid_of_nat (counter w)"
  define w1 where "w1 = w\<lparr>counter := Suc (counter w)\<rparr>"
  have n: "NewObjectId w = (i, w1)" by (simp add: NewObjectId_def i_def w1_def)
  obtain x w2 where u: "UpsertId_addresses i \<lparr>Address = ca, ID = i\<rparr> w1 = (x, w2)"
    by (cases "UpsertId_addresses i \<lparr>Address = ca, ID = i\<rparr> w1")
  note u' = UpsertId_addresses_run [OF u]
  have x: "x = head_fault w" using outcome_is_fault(2) [OF u] by (simp add: w1_def head_fault_def)
  have t2: "trace w2 = trace w @ [\<lparr>coll = ''addresses'', query = UpsertId i, outcome = x\<rparr>]"
    using u'(1) by (simp add: w1_def)
  have k2: "customers w2 = customers w" using u'(4) by (simp add: w1_def)
  show ?thesis
  proof (cases x)
    case (Some e)
    with assms False n u have "r = Some e" "ca' = ca" "w' = w2"
      by (auto simp: CreateAddress_def Let_def)
    moreover have "new_events w w2 = [\<lparr>coll = ''addresses'', query = UpsertId i, outcome = Some e\<rparr>]"
      using t2 Some by (intro new_events_append) simp
    moreover have "addresses w2 = addresses w" using u'(6) Some by (simp add: w1_def)
    ultimately show ?thesis using False k2 x [symmetric] Some by (auto simp: i_def)
  next
    case None
    have st: "addresses w2 = AList.update i \<lparr>Address = ca\<lparr>Address.ID := ''''\<rparr>, ID = i\<rparr> (addresses w)"
      using u'(6) None by (simp add: bson_MongoAddress_def w1_def)
    have e2: "new_events w w2 = [\<lparr>coll = ''addresses'', query = UpsertId i, outcome = None\<rparr>]"
      using t2 None by (intro new_events_append) simp
    show ?thesis
    proof (cases "userid = ''''")
      case True
      with assms n u None have "r = None" "ca' = ca\<lparr>Address.ID := Hex i\<rparr>" "w' = w2"
        by (auto simp: CreateAddress_def Let_def AddID_address_def)
      with True st e2 k2 x [symmetric] None show ?thesis by (auto simp: i_def)
    next
      case nonempty: False
      with False have "IsObjectIdHex userid" by simp
      then obtain uid where uid: "ObjectIdHex userid = Some uid"
        using IsObjectIdHex_ObjectIdHex by blast
      obtain y w3 where l: "Update_addToSet uid ''addresses'' i w2 = (y, w3)"
        by (cases "Update_addToSet uid ''addresses'' i w2")
      note l' = Update_addToSet_run [OF l]
      note le = Update_addToSet_exact [OF l]
      have h2: "head_fault w2 = head_fault (w\<lparr>faults := tl (faults w)\<rparr>)"
        using u'(3) by (simp add: head_fault_def w1_def)
      from assms False nonempty n u None uid l
      have res: "r = y" "ca' = (if y = None then ca\<lparr>Address.ID := Hex i\<rparr> else ca)" "w' = w3"
        by (auto simp: CreateAddress_def Let_def AddID_address_def appendAttributeId_def
              split: option.splits)
      have ev: "new_events w w3 = [\<lparr>coll = ''addresses'', query = UpsertId i, outcome = None\<rparr>,
                    \<lparr>coll = ''customers'', query = UpdateAddToSet uid ''addresses'' i, outcome = y\<rparr>]"
        using t2 None l'(1) by (intro new_events_append) simp
      have st3: "addresses w3 = AList.update i \<lparr>Address = ca\<lparr>Address.ID := ''''\<rparr>, ID = i\<rparr> (addresses w)"
        using st l'(4) by simp
      have link: "case head_fault (w\<lparr>faults := tl (faults w)\<rparr>) of
                    Some e \<Rightarrow> r = Some e \<and> ca' = ca \<and> customers w' = customers w
                  | None \<Rightarrow>
                      (case map_of (customers w) uid of
                         None \<Rightarrow> r = Some ErrNotFound \<and> ca' = ca \<and> customers w' = customers w
                       | Some d \<Rightarrow> r = None \<and> ca' = ca\<lparr>Address.ID := Hex i\<rparr>
                           \<and> customers w'
                               = AList.update uid
                                   (d\<lparr>AddressIDs := (if i \<in> set (AddressIDs d) then AddressIDs d
                                                  else AddressIDs d @ [i])\<rparr>)
                                   (customers w))"
        using le unfolding h2 k2 res
        by (auto simp: addToSet_def split: option.splits)
      show ?thesis
        using nonempty False uid x [symmetric] None st3 ev link unfolding res(3) res(1) i_def
        by (auto split: option.splits)
    qed
  qed
qed

lemma length_oid_of_nat [simp]: "length (oid_of_nat n) = 12"
  by (simp add: oid_of_nat_def)

lemma length_Hex: "length (Hex x) = 2 * length x"
  by (simp add: Hex_def length_EncodeToString)

lemma nobody_simps [simp]:
  "nobody \<noteq> ''''" "IsObjectIdHex nobody" "ObjectIdHex nobody = Some (oid_of_nat 9)"
proof -
  have "length nobody = 24" by (simp add: nobody_def length_Hex)
  then show "nobody \<noteq> ''''" by auto
qed (simp_all add: nobody_def IsObjectIdHex_Hex ObjectIdHex_Hex)

lemma run_card_nobody:
  "CreateCard visa nobody store0 =
   ((Some ErrNotFound, visa),
    \<lparr>customers = [], addresses = [],
     cards = [(oid_of_nat 0, \<lparr>Card = visa, ID = oid_of_nat 0\<rparr>)],
     counter = 1, faults = [],
     trace = [\<lparr>coll = ''cards'', query = UpsertId (oid_of_nat 0), outcome = None\<rparr>,
              \<lparr>coll = ''customers'',
                query = UpdateAddToSet (oid_of_nat 9) ''cards'' (oid_of_nat 0),
                outcome = Some ErrNotFound\<rparr>]\<rparr>)"
  by (simp add: CreateCard_def appendAttributeId_def Update_addToSet_def NewObjectId_def
        UpsertId_cards_def roundtrip_def reply_def Let_def bson_MongoCard_def store0_def visa_def)

lemma run_address_nobody:
  "CreateAddress home nobody store0 =
   ((Some ErrNotFound, home),
    \<lparr>customers = [],
     addresses = [(oid_of_nat 0, \<lparr>Address = home, ID = oid_of_nat 0\<rparr>)], cards = [],
     counter = 1, faults = [],
     trace = [\<lparr>coll = ''addresses'', query = UpsertId (oid_of_nat 0), outcome = None\<rparr>,
              \<lparr>coll = ''customers'',
                query = UpdateAddToSet (oid_of_nat 9) ''addresses'' (oid_of_nat 0),
                outcome = Some ErrNotFound\<rparr>]\<rparr>)"
  by (simp add: CreateAddress_def appendAttributeId_def Update_addToSet_def NewObjectId_def
        UpsertId_addresses_def roundtrip_def reply_def Let_def bson_MongoAddress_def store0_def
        home_def)

lemma somebody_simps [simp]:
  "somebody \<noteq> ''''" "IsObjectIdHex somebody" "ObjectIdHex somebody = Some (oid_of_nat 8)"
proof -
  have "length somebody = 24" by (simp add: somebody_def length_Hex)
  then show "somebody \<noteq> ''''" by auto
qed (simp_all add: somebody_def IsObjectIdHex_Hex ObjectIdHex_Hex)

lemma oid_of_nat_last: "oid_of_nat n ! 11 = char_of n"
proof -
  have "oid_of_nat n ! 11 = (\<lambda>k. char_of (n div 256 ^ (11 - k))) ([0..<12] ! 11)"
    unfolding oid_of_nat_def by (rule nth_map) simp
  then show ?thesis by simp
qed

lemma oid_of_nat_eq_iff:
  assumes "m < 256" and "n < 256"
  shows "oid_of_nat m = oid_of_nat n \<longleftrightarrow> m = n"
proof
  assume "oid_of_nat m = oid_of_nat n"
  then have "char_of m = (char_of n :: char)" by (simp add: oid_of_nat_last [symmetric])
  then have "m mod 256 = n mod 256" by (simp add: char_of_eq_iff take_bit_eq_mod)
  with assms show "m = n" by simp
qed simp

section \<open>CreateCard and CreateAddress\<close>

text \<open>
  C6. CreateCard (and CreateAddress in the same way) behaves as follows on every input.
  A non-empty \<open>userid\<close> that is not the hexadecimal form of an identifier is refused
  before anything is done. Otherwise the entity is upserted first, under the identifier
  just generated. When this upsert fails, it is the only call, its error is returned, and
  neither the entity's collection nor \<open>customers\<close> changes. When it works, the document
  is in the entity's collection under that identifier, and then: with an empty
  \<open>userid\<close> there is no further call, \<open>customers\<close> is unchanged and the caller gets
  the entity with its new identifier; with a non-empty \<open>userid\<close> the second and last call
  is the link, \<open>$addToSet\<close> of that identifier into the reference set of the user
  \<open>userid\<close> names. When the link works (the store answers and holds the user), the
  identifier is in the user's reference set and the caller gets the entity with its new
  identifier. When the link fails (the store fails the call, or holds no such user), its
  error is returned, the caller's value is left as passed, \<open>customers\<close> is unchanged,
  and the document is still in the entity's collection: the insert is not rolled back.
\<close>

theorem insert_then_link:
  assumes "CreateCard ca userid w = ((r, ca'), w')"
    and "CreateAddress a userid w = ((ra, a'), wa)"
  shows "((userid \<noteq> '''' \<and> \<not> IsObjectIdHex userid \<longrightarrow>
            r = Some (ErrorString ''Invalid Id Hex'') \<and> ca' = ca \<and> w' = w)
       \<and> (userid = '''' \<or> IsObjectIdHex userid \<longrightarrow>
            (case head_fault w of
               Some e \<Rightarrow>
                 new_events w w'
                   = [\<lparr>coll = ''cards'', query = UpsertId (oid_of_nat (counter w)), outcome = Some e\<rparr>]
                 \<and> r = Some e \<and> ca' = ca \<and> cards w' = cards w \<and> customers w' = customers w
             | None \<Rightarrow>
                 cards w' = AList.update (oid_of_nat (counter w))
                              \<lparr>Card = ca\<lparr>Card.ID := ''''\<rparr>, ID = oid_of_nat (counter w)\<rparr> (cards w)
                 \<and> (if userid = ''''
                    then new_events w w'
                           = [\<lparr>coll = ''cards'', query = UpsertId (oid_of_nat (counter w)), outcome = None\<rparr>]
                         \<and> r = None \<and> ca' = ca\<lparr>Card.ID := Hex (oid_of_nat (counter w))\<rparr>
                         \<and> customers w' = customers w
                    else \<exists>uid. ObjectIdHex userid = Some uid
                         \<and> new_events w w'
                             = [\<lparr>coll = ''cards'', query = UpsertId (oid_of_nat (counter w)), outcome = None\<rparr>,
                                \<lparr>coll = ''customers'',
                                  query = UpdateAddToSet uid ''cards'' (oid_of_nat (counter w)),
                                  outcome = r\<rparr>]
                         \<and> (case head_fault (w\<lparr>faults := tl (faults w)\<rparr>) of
                              Some e \<Rightarrow> r = Some e \<and> ca' = ca \<and> customers w' = customers w
                            | None \<Rightarrow>
                                (case map_of (customers w) uid of
                                   None \<Rightarrow> r = Some ErrNotFound \<and> ca' = ca
                                            \<and> customers w' = customers w
                                 | Some d \<Rightarrow> r = None
                                     \<and> ca' = ca\<lparr>Card.ID := Hex (oid_of_nat (counter w))\<rparr>
                                     \<and> customers w'
                                         = AList.update uid
                                             (d\<lparr>CardIDs :=
                                                  (if oid_of_nat (counter w) \<in> set (CardIDs d)
                                                   then CardIDs d
                                                   else CardIDs d @ [oid_of_nat (counter w)])\<rparr>)
                                             (customers w)))))))
     \<and> ((userid \<noteq> '''' \<and> \<not> IsObjectIdHex userid \<longrightarrow>
            ra = Some (ErrorString ''Invalid Id Hex'') \<and> a' = a \<and> wa = w)
       \<and> (userid = '''' \<or> IsObjectIdHex userid \<longrightarrow>
            (case head_fault w of
               Some e \<Rightarrow>
                 new_events w wa
                   = [\<lparr>coll = ''addresses'', query = UpsertId (oid_of_nat (counter w)), outcome = Some e\<rparr>]
                 \<and> ra = Some e \<and> a' = a \<and> addresses wa = addresses w \<and> customers wa = customers w
             | None \<Rightarrow>
                 addresses wa = AList.update (oid_of_nat (counter w))
                              \<lparr>Address = a\<lparr>Address.ID := ''''\<rparr>, ID = oid_of_nat (counter w)\<rparr> (addresses w)
                 \<and> (if userid = ''''
                    then new_events w wa
                           = [\<lparr>coll = ''addresses'', query = UpsertId (oid_of_nat (counter w)), outcome = None\<rparr>]
                         \<and> ra = None \<and> a' = a\<lparr>Address.ID := Hex (oid_of_nat (counter w))\<rparr>
                         \<and> customers wa = customers w
                    else \<exists>uid. ObjectIdHex userid = Some uid
                         \<and> new_events w wa
                             = [\<lparr>coll = ''addresses'', query = UpsertId (oid_of_nat (counter w)), outcome = None\<rparr>,
                                \<lparr>coll = ''customers'',
                                  query = UpdateAddToSet uid ''addresses'' (oid_of_nat (counter w)),
                                  outcome = ra\<rparr>]
                         \<and> (case head_fault (w\<lparr>faults := tl (faults w)\<rparr>) of
                              Some e \<Rightarrow> ra = Some e \<and> a' = a \<and> customers wa = customers w
                            | None \<Rightarrow>
                                (case map_of (customers w) uid of
                                   None \<Rightarrow> ra = Some ErrNotFound \<and> a' = a
                                            \<and> customers wa = customers w
                                 | Some d \<Rightarrow> ra = None
                                     \<and> a' = a\<lparr>Address.ID := Hex (oid_of_nat (counter w))\<rparr>
                                     \<and> customers wa
                                         = AList.update uid
                                             (d\<lparr>AddressIDs :=
                                                  (if oid_of_nat (counter w) \<in> set (AddressIDs d)
                                                   then AddressIDs d
                                                   else AddressIDs d @ [oid_of_nat (counter w)])\<rparr>)
                                             (customers w)))))))"
  using CreateCard_exact [OF assms(1)] CreateAddress_exact [OF assms(2)] by (rule conjI)

theorem insert_then_link_witness:
  "fst (fst (CreateCard visa nobody store0)) = Some ErrNotFound
   \<and> snd (fst (CreateCard visa nobody store0)) = visa
   \<and> cards (snd (CreateCard visa nobody store0))
       = [(oid_of_nat 0, \<lparr>Card = visa, ID = oid_of_nat 0\<rparr>)]
   \<and> customers (snd (CreateCard visa nobody store0)) = []
   \<and> new_events store0 (snd (CreateCard visa nobody store0))
       = [\<lparr>coll = ''cards'', query = UpsertId (oid_of_nat 0), outcome = None\<rparr>,
          \<lparr>coll = ''customers'', query = UpdateAddToSet (oid_of_nat 9) ''cards'' (oid_of_nat 0),
            outcome = Some ErrNotFound\<rparr>]
   \<and> fst (fst (CreateAddress home nobody store0)) = Some ErrNotFound
   \<and> snd (fst (CreateAddress home nobody store0)) = home
   \<and> addresses (snd (CreateAddress home nobody store0))
       = [(oid_of_nat 0, \<lparr>Address = home, ID = oid_of_nat 0\<rparr>)]
   \<and> customers (snd (CreateAddress home nobody store0)) = []
   \<and> new_events store0 (snd (CreateAddress home nobody store0))
       = [\<lparr>coll = ''addresses'', query = UpsertId (oid_of_nat 0), outcome = None\<rparr>,
          \<lparr>coll = ''customers'', query = UpdateAddToSet (oid_of_nat 9) ''addresses'' (oid_of_nat 0),
            outcome = Some ErrNotFound\<rparr>]
   \<and> fst (fst (CreateCard visa somebody one_user)) = None
   \<and> snd (fst (CreateCard visa somebody one_user)) = visa\<lparr>Card.ID := Hex (oid_of_nat 0)\<rparr>
   \<and> cards (snd (CreateCard visa somebody one_user))
       = [(oid_of_nat 0, \<lparr>Card = visa, ID = oid_of_nat 0\<rparr>)]
   \<and> customers (snd (CreateCard visa somebody one_user))
       = [(oid_of_nat 8,
           \<lparr>User = \<lparr>Username = ''bob'', profile = ''Bob B.'', Addresses = [], Cards = [],
                     UserID = ''''\<rparr>,
             ID = oid_of_nat 8, AddressIDs = [], CardIDs = [oid_of_nat 0]\<rparr>)]
   \<and> fst (fst (CreateAddress home somebody one_user)) = None
   \<and> snd (fst (CreateAddress home somebody one_user)) = home\<lparr>Address.ID := Hex (oid_of_nat 0)\<rparr>
   \<and> addresses (snd (CreateAddress home somebody one_user))
       = [(oid_of_nat 0, \<lparr>Address = home, ID = oid_of_nat 0\<rparr>)]
   \<and> customers (snd (CreateAddress home somebody one_user))
       = [(oid_of_nat 8,
           \<lparr>User = \<lparr>Username = ''bob'', profile = ''Bob B.'', Addresses = [], Cards = [],
                     UserID = ''''\<rparr>,
             ID = oid_of_nat 8, AddressIDs = [oid_of_nat 0], CardIDs = []\<rparr>)]"
proof -
  have s: "\<And>X. X = ((fst (fst X), snd (fst X)), snd X)" by simp
  note t1 = insert_then_link [where ca = visa and a = home and userid = nobody and w = store0,
      OF s s]
  note t2 = insert_then_link [where ca = visa and a = home and userid = somebody and w = one_user,
      OF s s]
  have f: "head_fault store0 = None" "head_fault (store0\<lparr>faults := tl (faults store0)\<rparr>) = None"
    "head_fault one_user = None" "head_fault (one_user\<lparr>faults := tl (faults one_user)\<rparr>) = None"
    "counter store0 = 0" "counter one_user = 0"
    "customers store0 = []" "cards store0 = []" "addresses store0 = []"
    "cards one_user = []" "addresses one_user = []"
    by (simp_all add: head_fault_def store0_def one_user_def)
  have k: "customers one_user
       = [(oid_of_nat 8,
           \<lparr>User = \<lparr>Username = ''bob'', profile = ''Bob B.'', Addresses = [], Cards = [],
                     UserID = ''''\<rparr>,
             ID = oid_of_nat 8, AddressIDs = [], CardIDs = []\<rparr>)]"
    by (simp add: one_user_def store0_def)
  from t1 have a: "fst (fst (CreateCard visa nobody store0)) = Some ErrNotFound
   \<and> snd (fst (CreateCard visa nobody store0)) = visa
   \<and> cards (snd (CreateCard visa nobody store0))
       = [(oid_of_nat 0, \<lparr>Card = visa, ID = oid_of_nat 0\<rparr>)]
   \<and> customers (snd (CreateCard visa nobody store0)) = []
   \<and> new_events store0 (snd (CreateCard visa nobody store0))
       = [\<lparr>coll = ''cards'', query = UpsertId (oid_of_nat 0), outcome = None\<rparr>,
          \<lparr>coll = ''customers'', query = UpdateAddToSet (oid_of_nat 9) ''cards'' (oid_of_nat 0),
            outcome = Some ErrNotFound\<rparr>]
   \<and> fst (fst (CreateAddress home nobody store0)) = Some ErrNotFound
   \<and> snd (fst (CreateAddress home nobody store0)) = home
   \<and> addresses (snd (CreateAddress home nobody store0))
       = [(oid_of_nat 0, \<lparr>Address = home, ID = oid_of_nat 0\<rparr>)]
   \<and> customers (snd (CreateAddress home nobody store0)) = []
   \<and> new_events store0 (snd (CreateAddress home nobody store0))
       = [\<lparr>coll = ''addresses'', query = UpsertId (oid_of_nat 0), outcome = None\<rparr>,
          \<lparr>coll = ''customers'', query = UpdateAddToSet (oid_of_nat 9) ''addresses'' (oid_of_nat 0),
            outcome = Some ErrNotFound\<rparr>]"
    by (simp add: f visa_def home_def)
  from t2 have b: "fst (fst (CreateCard visa somebody one_user)) = None
   \<and> snd (fst (CreateCard visa somebody one_user)) = visa\<lparr>Card.ID := Hex (oid_of_nat 0)\<rparr>
   \<and> cards (snd (CreateCard visa somebody one_user))
       = [(oid_of_nat 0, \<lparr>Card = visa, ID = oid_of_nat 0\<rparr>)]
   \<and> customers (snd (CreateCard visa somebody one_user))
       = [(oid_of_nat 8,
           \<lparr>User = \<lparr>Username = ''bob'', profile = ''Bob B.'', Addresses = [], Cards = [],
                     UserID = ''''\<rparr>,
             ID = oid_of_nat 8, AddressIDs = [], CardIDs = [oid_of_nat 0]\<rparr>)]
   \<and> fst (fst (CreateAddress home somebody one_user)) = None
   \<and> snd (fst (CreateAddress home somebody one_user)) = home\<lparr>Address.ID := Hex (oid_of_nat 0)\<rparr>
   \<and> addresses (snd (CreateAddress home somebody one_user))
       = [(oid_of_nat 0, \<lparr>Address = home, ID = oid_of_nat 0\<rparr>)]
   \<and> customers (snd (CreateAddress home somebody one_user))
       = [(oid_of_nat 8,
           \<lparr>User = \<lparr>Username = ''bob'', profile = ''Bob B.'', Addresses = [], Cards = [],
                     UserID = ''''\<rparr>,
             ID = oid_of_nat 8, AddressIDs = [oid_of_nat 0], CardIDs = []\<rparr>)]"
    by (simp add: f k visa_def home_def)
  from a b show ?thesis by (simp only: conj_assoc)
qed

section \<open>The run of GetUserAttributes\<close>

lemma objectIds_ok:
  "\<forall>s \<in> set ss. IsObjectIdHex s \<Longrightarrow> objectIds ss = Inr (map (\<lambda>s. the (ObjectIdHex s)) ss)"
proof (induction ss)
  case Nil
  then show ?case by simp
next
  case (Cons s ss)
  then have "IsObjectIdHex s" by simp
  then obtain i where "ObjectIdHex s = Some i" using IsObjectIdHex_ObjectIdHex by blast
  with Cons show ?case by simp
qed

lemma objectIds_bad:
  "\<exists>s \<in> set ss. \<not> IsObjectIdHex s \<Longrightarrow> objectIds ss = Inl ErrInvalidHexID"
proof (induction ss)
  case Nil
  then show ?case by simp
next
  case (Cons s ss)
  show ?case
  proof (cases "IsObjectIdHex s")
    case False
    then show ?thesis by simp
  next
    case True
    then obtain i where "ObjectIdHex s = Some i" using IsObjectIdHex_ObjectIdHex by blast
    moreover from True Cons.prems have "\<exists>s \<in> set ss. \<not> IsObjectIdHex s" by auto
    ultimately show ?thesis using True Cons.IH by simp
  qed
qed

lemma All_addresses_run:
  assumes "All_addresses ids w = ((ma, r), w')"
  shows "trace w' = trace w @ [\<lparr>coll = ''addresses'', query = FindAllIn ids, outcome = r\<rparr>]"
    and "counter w' = counter w" and "faults w' = tl (faults w)"
    and "customers w' = customers w" and "addresses w' = addresses w" and "cards w' = cards w"
    and "r = head_fault w"
    and "r = None \<longrightarrow>
          map (\<lambda>a. (MongoAddress.Address a)\<lparr>Address.ID := Hex (MongoAddress.ID a)\<rparr>) ma
            = found_addresses ids w"
  using assms
  by (auto simp: All_addresses_def roundtrip_def reply_def head_fault_def found_addresses_def
           unmarshal_MongoAddress_def bson_MongoAddress_def
           split: list.splits option.splits)

lemma All_cards_run:
  assumes "All_cards ids w = ((mc, r), w')"
  shows "trace w' = trace w @ [\<lparr>coll = ''cards'', query = FindAllIn ids, outcome = r\<rparr>]"
    and "counter w' = counter w" and "faults w' = tl (faults w)"
    and "customers w' = customers w" and "addresses w' = addresses w" and "cards w' = cards w"
    and "r = head_fault w"
    and "r = None \<longrightarrow>
          map (\<lambda>ca. (MongoCard.Card ca)\<lparr>Card.ID := Hex (MongoCard.ID ca)\<rparr>) mc
            = found_cards ids w"
  using assms
  by (auto simp: All_cards_def roundtrip_def reply_def head_fault_def found_cards_def
           unmarshal_MongoCard_def bson_MongoCard_def
           split: list.splits option.splits)

lemma no_fault_2:
  "no_fault 2 w \<Longrightarrow> head_fault w = None \<and> (\<forall>w'. faults w' = tl (faults w) \<longrightarrow> head_fault w' = None)"
  by (cases "faults w"; cases "tl (faults w)")
     (auto simp: no_fault_def head_fault_def eval_nat_numeral)

lemma Hex_inject: "Hex a = Hex b \<Longrightarrow> a = b"
proof -
  assume "Hex a = Hex b"
  then have "DecodeString (EncodeToString a) = DecodeString (EncodeToString b)"
    by (simp add: Hex_def)
  then show ?thesis by (simp add: DecodeString_EncodeToString)
qed

lemma found_addresses_ID:
  "b \<in> set (found_addresses ids w) \<Longrightarrow>
     \<exists>k. Address.ID b = Hex k \<and> k \<in> set ids \<and> map_of (addresses w) k \<noteq> None"
  by (auto simp: found_addresses_def weak_map_of_SomeI)

lemma found_cards_ID:
  "b \<in> set (found_cards ids w) \<Longrightarrow>
     \<exists>k. Card.ID b = Hex k \<and> k \<in> set ids \<and> map_of (cards w) k \<noteq> None"
  by (auto simp: found_cards_def weak_map_of_SomeI)

lemma GetUserAttributes_run:
  assumes "\<forall>a \<in> set (Addresses u). IsObjectIdHex (Address.ID a)"
    and "head_fault w = None"
    and "w1 = snd (All_addresses (map (\<lambda>a. the (ObjectIdHex (Address.ID a))) (Addresses u)) w)"
    and "u1 = u\<lparr>Addresses :=
                 found_addresses (map (\<lambda>a. the (ObjectIdHex (Address.ID a))) (Addresses u)) w\<rparr>"
  shows "faults w1 = tl (faults w)" and "cards w1 = cards w"
    and "GetUserAttributes u w =
        (case objectIds (map Card.ID (Cards u)) of
           Inl e \<Rightarrow> ((Some e, u1), w1)
         | Inr ids \<Rightarrow>
             (case All_cards ids w1 of
                ((mc, Some e), w2) \<Rightarrow> ((Some e, u1), w2)
              | ((mc, None), w2) \<Rightarrow>
                  ((None, u1\<lparr>Cards := map (\<lambda>ca. (MongoCard.Card ca)
                               \<lparr>Card.ID := Hex (MongoCard.ID ca)\<rparr>) mc\<rparr>), w2)))"
proof -
  let ?ids = "map (\<lambda>a. the (ObjectIdHex (Address.ID a))) (Addresses u)"
  obtain ma r w1' where a: "All_addresses ?ids w = ((ma, r), w1')"
    by (cases "All_addresses ?ids w") auto
  note a' = All_addresses_run [OF a]
  have w1: "w1 = w1'" using assms(3) a by simp
  have r: "r = None" using a'(7) assms(2) by simp
  have o: "objectIds (map Address.ID (Addresses u)) = Inr ?ids"
    using objectIds_ok [of "map Address.ID (Addresses u)"] assms(1) by (simp add: comp_def)
  show "faults w1 = tl (faults w)" using a'(3) w1 by simp
  show "cards w1 = cards w" using a'(6) w1 by simp
  have na: "map (\<lambda>a. (MongoAddress.Address a)\<lparr>Address.ID := Hex (MongoAddress.ID a)\<rparr>) ma
            = found_addresses ?ids w"
    using a'(8) r by simp
  show "GetUserAttributes u w =
        (case objectIds (map Card.ID (Cards u)) of
           Inl e \<Rightarrow> ((Some e, u1), w1)
         | Inr ids \<Rightarrow>
             (case All_cards ids w1 of
                ((mc, Some e), w2) \<Rightarrow> ((Some e, u1), w2)
              | ((mc, None), w2) \<Rightarrow>
                  ((None, u1\<lparr>Cards := map (\<lambda>ca. (MongoCard.Card ca)
                               \<lparr>Card.ID := Hex (MongoCard.ID ca)\<rparr>) mc\<rparr>), w2)))"
    unfolding GetUserAttributes_def o w1 assms(4)
    by (simp add: a r na Let_def split: sum.splits option.splits prod.splits)
qed

lemma found_cards_cong: "cards w1 = cards w \<Longrightarrow> found_cards ids w1 = found_cards ids w"
  by (simp add: found_cards_def)

lemma found_addresses_orphan:
  assumes "map_of (addresses w) k = None" and "b \<in> set (found_addresses ids w)"
  shows "Address.ID b \<noteq> Hex k"
proof
  assume e: "Address.ID b = Hex k"
  from found_addresses_ID [OF assms(2)] obtain k' where
    k': "Address.ID b = Hex k'" "map_of (addresses w) k' \<noteq> None" by blast
  from e k'(1) have "k' = k" by (simp add: Hex_inject)
  with k'(2) assms(1) show False by simp
qed

lemma found_cards_orphan:
  assumes "map_of (cards w) k = None" and "b \<in> set (found_cards ids w)"
  shows "Card.ID b \<noteq> Hex k"
proof
  assume e: "Card.ID b = Hex k"
  from found_cards_ID [OF assms(2)] obtain k' where
    k': "Card.ID b = Hex k'" "map_of (cards w) k' \<noteq> None" by blast
  from e k'(1) have "k' = k" by (simp add: Hex_inject)
  with k'(2) assms(1) show False by simp
qed

lemma GetUserAttributes_found:
  assumes "\<forall>a \<in> set (Addresses u). IsObjectIdHex (Address.ID a)"
    and "\<forall>c \<in> set (Cards u). IsObjectIdHex (Card.ID c)"
    and "no_fault 2 w"
  shows "fst (GetUserAttributes u w)
           = (None,
              u\<lparr>Addresses :=
                  found_addresses (map (\<lambda>a. the (ObjectIdHex (Address.ID a))) (Addresses u)) w,
                Cards := found_cards (map (\<lambda>c. the (ObjectIdHex (Card.ID c))) (Cards u)) w\<rparr>)"
proof -
  let ?aids = "map (\<lambda>a. the (ObjectIdHex (Address.ID a))) (Addresses u)"
  let ?cids = "map (\<lambda>c. the (ObjectIdHex (Card.ID c))) (Cards u)"
  define w1 where "w1 = snd (All_addresses ?aids w)"
  define u1 where "u1 = u\<lparr>Addresses := found_addresses ?aids w\<rparr>"
  from no_fault_2 [OF assms(3)]
  have h1: "head_fault w = None"
    and h2: "\<And>w'. faults w' = tl (faults w) \<Longrightarrow> head_fault w' = None" by blast+
  note g = GetUserAttributes_run [OF assms(1) h1 w1_def u1_def]
  have o: "objectIds (map Card.ID (Cards u)) = Inr ?cids"
    using objectIds_ok [of "map Card.ID (Cards u)"] assms(2) by (simp add: comp_def)
  obtain mc r w2 where c: "All_cards ?cids w1 = ((mc, r), w2)"
    by (cases "All_cards ?cids w1") auto
  note c' = All_cards_run [OF c]
  have r: "r = None" using c'(7) h2 [OF g(1)] by simp
  have mc: "map (\<lambda>ca. (MongoCard.Card ca)\<lparr>Card.ID := Hex (MongoCard.ID ca)\<rparr>) mc
              = found_cards ?cids w"
    using c'(8) r found_cards_cong [OF g(2)] by simp
  have res: "GetUserAttributes u w = ((None, u1\<lparr>Cards := found_cards ?cids w\<rparr>), w2)"
    unfolding g(3) o by (simp add: c r mc)
  show ?thesis unfolding res u1_def by simp
qed


lemma alice_store_simps:
  "addresses alice_store = [(oid_of_nat 3, \<lparr>Address = home, ID = oid_of_nat 3\<rparr>)]"
  "cards alice_store = [(oid_of_nat 1, \<lparr>Card = visa, ID = oid_of_nat 1\<rparr>)]"
  "customers alice_store = [(oid_of_nat 0, \<lparr>User = alice\<lparr>Addresses := [], Cards := []\<rparr>,
       ID = oid_of_nat 0, AddressIDs = [oid_of_nat 3], CardIDs = [oid_of_nat 1]\<rparr>)]"
  "faults alice_store = []"
  "length (trace alice_store) = 4"
  unfolding alice_store_def run_second_card_down by (simp_all add: home_def visa_def)

lemma Hex_simps [simp]:
  "IsObjectIdHex (Hex (oid_of_nat n))" "ObjectIdHex (Hex (oid_of_nat n)) = Some (oid_of_nat n)"
  by (simp_all add: IsObjectIdHex_Hex ObjectIdHex_Hex)

lemma not_an_id [simp]: "\<not> IsObjectIdHex ''not an id''"
  by (simp add: IsObjectIdHex_def)

section \<open>GetUserAttributes\<close>

text \<open>
  C8. For every user value whose address and card references are all well-formed, and
  every store that answers the two queries, GetUserAttributes returns no error, and the
  addresses and cards of the result are the documents of the two collections whose
  identifier is referenced, each with its external identifier. A reference to an
  identifier that no document of the collection has is left out without notice: no entry
  of the result carries it.
\<close>

theorem GetUserAttributes_orphans:
  assumes "\<forall>a \<in> set (Addresses u). IsObjectIdHex (Address.ID a)"
    and "\<forall>c \<in> set (Cards u). IsObjectIdHex (Card.ID c)"
    and "no_fault 2 w"
  shows "fst (fst (GetUserAttributes u w)) = None
       \<and> Addresses (snd (fst (GetUserAttributes u w)))
           = found_addresses (map (\<lambda>a. the (ObjectIdHex (Address.ID a))) (Addresses u)) w
       \<and> Cards (snd (fst (GetUserAttributes u w)))
           = found_cards (map (\<lambda>c. the (ObjectIdHex (Card.ID c))) (Cards u)) w
       \<and> (\<forall>k. map_of (addresses w) k = None \<longrightarrow>
             (\<forall>b \<in> set (Addresses (snd (fst (GetUserAttributes u w)))). Address.ID b \<noteq> Hex k))
       \<and> (\<forall>k. map_of (cards w) k = None \<longrightarrow>
             (\<forall>b \<in> set (Cards (snd (fst (GetUserAttributes u w)))). Card.ID b \<noteq> Hex k))"
proof -
  note res = GetUserAttributes_found [OF assms]
  have "fst (fst (GetUserAttributes u w)) = None"
    and "snd (fst (GetUserAttributes u w))
           = u\<lparr>Addresses :=
                  found_addresses (map (\<lambda>a. the (ObjectIdHex (Address.ID a))) (Addresses u)) w,
                Cards := found_cards (map (\<lambda>c. the (ObjectIdHex (Card.ID c))) (Cards u)) w\<rparr>"
    by (simp_all add: res)
  then show ?thesis
    by (simp add: found_addresses_orphan found_cards_orphan)
qed

theorem GetUserAttributes_orphans_witness:
  "list_all (\<lambda>a. IsObjectIdHex (Address.ID a)) (Addresses alice_stale)
   \<and> list_all (\<lambda>c. IsObjectIdHex (Card.ID c)) (Cards alice_stale)
   \<and> no_fault 2 alice_store
   \<and> map_of (addresses alice_store) (oid_of_nat 5) = None
   \<and> fst (fst (GetUserAttributes alice_stale alice_store)) = None
   \<and> Addresses (snd (fst (GetUserAttributes alice_stale alice_store)))
       = [\<lparr>postal = ''1 High Street'', ID = Hex (oid_of_nat 3)\<rparr>]
   \<and> Cards (snd (fst (GetUserAttributes alice_stale alice_store)))
       = [\<lparr>payment = ''4111'', ID = Hex (oid_of_nat 1)\<rparr>]"
proof -
  have a: "\<forall>a \<in> set (Addresses alice_stale). IsObjectIdHex (Address.ID a)"
    and c: "\<forall>c \<in> set (Cards alice_stale). IsObjectIdHex (Card.ID c)"
    by (simp_all add: alice_stale_def)
  have n: "no_fault 2 alice_store"
    by (simp add: no_fault_def alice_store_simps)
  have o: "map_of (addresses alice_store) (oid_of_nat 5) = None"
    by (simp add: alice_store_simps oid_of_nat_eq_iff)
  have fa: "found_addresses (map (\<lambda>a. the (ObjectIdHex (Address.ID a))) (Addresses alice_stale))
              alice_store = [\<lparr>postal = ''1 High Street'', ID = Hex (oid_of_nat 3)\<rparr>]"
    by (simp add: found_addresses_def alice_store_simps alice_stale_def home_def)
  have fc: "found_cards (map (\<lambda>c. the (ObjectIdHex (Card.ID c))) (Cards alice_stale))
              alice_store = [\<lparr>payment = ''4111'', ID = Hex (oid_of_nat 1)\<rparr>]"
    by (simp add: found_cards_def alice_store_simps alice_stale_def visa_def)
  from GetUserAttributes_orphans [OF a c n] a c n o show ?thesis
    by (simp add: fa fc list_all_iff)
qed

text \<open>
  C9. GetUserAttributes is not atomic on its invalid-identifier path. When the address
  references are all well-formed, some card reference is malformed and the store answers
  the address query, the call returns the invalid-identifier error with the addresses of
  the caller's value already replaced by the documents found. When an address reference is
  malformed, it returns the same error with the value, and the store, untouched.
\<close>

theorem GetUserAttributes_not_atomic:
  "((\<forall>a \<in> set (Addresses u). IsObjectIdHex (Address.ID a))
      \<and> (\<exists>c \<in> set (Cards u). \<not> IsObjectIdHex (Card.ID c))
      \<and> head_fault w = None \<longrightarrow>
        fst (GetUserAttributes u w)
          = (Some ErrInvalidHexID,
             u\<lparr>Addresses :=
                 found_addresses (map (\<lambda>a. the (ObjectIdHex (Address.ID a))) (Addresses u)) w\<rparr>))
   \<and> ((\<exists>a \<in> set (Addresses u). \<not> IsObjectIdHex (Address.ID a)) \<longrightarrow>
        GetUserAttributes u w = ((Some ErrInvalidHexID, u), w))"
proof (intro conjI impI)
  assume "\<exists>a \<in> set (Addresses u). \<not> IsObjectIdHex (Address.ID a)"
  then have "objectIds (map Address.ID (Addresses u)) = Inl ErrInvalidHexID"
    by (intro objectIds_bad) simp
  then show "GetUserAttributes u w = ((Some ErrInvalidHexID, u), w)"
    by (simp add: GetUserAttributes_def)
next
  assume h: "(\<forall>a \<in> set (Addresses u). IsObjectIdHex (Address.ID a))
      \<and> (\<exists>c \<in> set (Cards u). \<not> IsObjectIdHex (Card.ID c))
      \<and> head_fault w = None"
  then have b: "objectIds (map Card.ID (Cards u)) = Inl ErrInvalidHexID"
    by (intro objectIds_bad) simp
  from h have wf: "\<forall>a \<in> set (Addresses u). IsObjectIdHex (Address.ID a)"
    and hf: "head_fault w = None" by simp_all
  show "fst (GetUserAttributes u w)
          = (Some ErrInvalidHexID,
             u\<lparr>Addresses :=
                 found_addresses (map (\<lambda>a. the (ObjectIdHex (Address.ID a))) (Addresses u)) w\<rparr>)"
    unfolding GetUserAttributes_run(3) [OF wf hf refl refl] b by simp
qed

theorem GetUserAttributes_not_atomic_witness:
  "fst (GetUserAttributes alice_bad_card alice_store)
     = (Some ErrInvalidHexID,
        alice_bad_card\<lparr>Addresses := [\<lparr>postal = ''1 High Street'', ID = Hex (oid_of_nat 3)\<rparr>]\<rparr>)
   \<and> GetUserAttributes alice_bad_address alice_store
     = ((Some ErrInvalidHexID, alice_bad_address), alice_store)"
proof -
  have h: "head_fault alice_store = None"
    by (simp add: head_fault_def alice_store_simps)
  have fa: "found_addresses (map (\<lambda>a. the (ObjectIdHex (Address.ID a))) (Addresses alice_bad_card))
              alice_store = [\<lparr>postal = ''1 High Street'', ID = Hex (oid_of_nat 3)\<rparr>]"
    by (simp add: found_addresses_def alice_store_simps alice_bad_card_def home_def)
  have p1: "(\<forall>a \<in> set (Addresses alice_bad_card). IsObjectIdHex (Address.ID a))
      \<and> (\<exists>c \<in> set (Cards alice_bad_card). \<not> IsObjectIdHex (Card.ID c))
      \<and> head_fault alice_store = None"
    using h by (simp add: alice_bad_card_def)
  have p2: "\<exists>a \<in> set (Addresses alice_bad_address). \<not> IsObjectIdHex (Address.ID a)"
    by (simp add: alice_bad_address_def)
  from GetUserAttributes_not_atomic [of alice_bad_card alice_store, THEN conjunct1, rule_format, OF p1]
       GetUserAttributes_not_atomic [of alice_bad_address alice_store, THEN conjunct2, rule_format, OF p2]
  show ?thesis by (simp add: fa)
qed

section \<open>The run of Delete\<close>

lemma One_customers_run:
  assumes "One_customers i mu w = ((mu', r), w')"
  shows "trace w' = trace w @ [\<lparr>coll = ''customers'', query = FindId i, outcome = r\<rparr>]"
    and "counter w' = counter w" and "faults w' = tl (faults w)"
    and "customers w' = customers w" and "addresses w' = addresses w" and "cards w' = cards w"
    and "head_fault w = None \<Longrightarrow> map_of (customers w) i = None \<Longrightarrow> r = Some ErrNotFound \<and> mu' = mu"
    and "head_fault w = None \<Longrightarrow> map_of (customers w) i = Some d \<Longrightarrow>
           r = None \<and> mu' = unmarshal_MongoUser i d"
  using assms
  by (auto simp: One_customers_def roundtrip_def reply_def head_fault_def
           split: list.splits option.splits)

lemma UpdateAll_pull_run:
  assumes "UpdateAll_pull attr i w = (r, w')"
  shows "trace w' = trace w @ [\<lparr>coll = ''customers'', query = UpdateAllPull attr i, outcome = r\<rparr>]"
    and "counter w' = counter w" and "faults w' = tl (faults w)"
    and "addresses w' = addresses w" and "cards w' = cards w"
    and "customers w' = (if r = None then map (\<lambda>(k, d). (k, pull attr i d)) (customers w)
                         else customers w)"
  using assms
  by (auto simp: UpdateAll_pull_def roundtrip_def reply_def
           split: list.splits option.splits)

lemma Remove_run:
  assumes "Remove entity i w = (r, w')"
  shows "trace w' = trace w @ [\<lparr>coll = entity, query = RemoveId i, outcome = r\<rparr>]"
    and "counter w' = counter w" and "faults w' = tl (faults w)"
    and "r = None \<Longrightarrow> entity = ''customers'' \<Longrightarrow> map_of (customers w') i = None"
    and "r = None \<Longrightarrow> entity = ''addresses'' \<Longrightarrow> map_of (addresses w') i = None"
    and "r = None \<Longrightarrow> entity = ''cards'' \<Longrightarrow> map_of (cards w') i = None"
    and "entity \<noteq> ''customers'' \<Longrightarrow> customers w' = customers w"
    and "entity \<noteq> ''addresses'' \<Longrightarrow> addresses w' = addresses w"
    and "entity \<noteq> ''cards'' \<Longrightarrow> cards w' = cards w"
  using assms
  by (auto simp: Remove_def roundtrip_def reply_def delete_conv'
           split: list.splits option.splits if_splits)

lemma those_Hex:
  "\<forall>k \<in> set ks. length k = 12 \<Longrightarrow> those (map (\<lambda>k. ObjectIdHex (Hex k)) ks) = Some ks"
  by (induction ks) (simp_all add: ObjectIdHex_Hex)

lemma GetUser_found:
  assumes "ObjectIdHex sid = Some i" and "IsObjectIdHex sid"
    and "map_of (customers w) i = Some d" and "head_fault w = None"
  shows "fst (GetUser sid w)
           = ((MongoUser.User d)
                \<lparr>Addresses := map (\<lambda>k. \<lparr>postal = '''', ID = Hex k\<rparr>) (AddressIDs d),
                  Cards := map (\<lambda>k. \<lparr>payment = '''', ID = Hex k\<rparr>) (CardIDs d),
                  UserID := Hex i\<rparr>, None)"
    and "trace (snd (GetUser sid w))
           = trace w @ [\<lparr>coll = ''customers'', query = FindId i, outcome = None\<rparr>]"
    and "faults (snd (GetUser sid w)) = tl (faults w)"
    and "customers (snd (GetUser sid w)) = customers w"
    and "addresses (snd (GetUser sid w)) = addresses w"
    and "cards (snd (GetUser sid w)) = cards w"
proof -
  obtain mu e w1 where o: "One_customers i New w = ((mu, e), w1)"
    by (cases "One_customers i New w") auto
  note o' = One_customers_run [OF o]
  from o'(8) [OF assms(4,3)] have e: "e = None" and mu: "mu = unmarshal_MongoUser i d"
    by simp_all
  have g: "GetUser sid w = ((MongoUser.User (AddUserIDs mu), None), w1)"
    using assms(1,2) o e by (simp add: GetUser_def)
  show "fst (GetUser sid w)
           = ((MongoUser.User d)
                \<lparr>Addresses := map (\<lambda>k. \<lparr>postal = '''', ID = Hex k\<rparr>) (AddressIDs d),
                  Cards := map (\<lambda>k. \<lparr>payment = '''', ID = Hex k\<rparr>) (CardIDs d),
                  UserID := Hex i\<rparr>, None)"
    unfolding g mu by (simp add: AddUserIDs_def unmarshal_MongoUser_def bson_MongoUser_def)
  show "trace (snd (GetUser sid w))
           = trace w @ [\<lparr>coll = ''customers'', query = FindId i, outcome = None\<rparr>]"
    unfolding g using o'(1) e by simp
  show "faults (snd (GetUser sid w)) = tl (faults w)" unfolding g using o'(3) by simp
  show "customers (snd (GetUser sid w)) = customers w" unfolding g using o'(4) by simp
  show "addresses (snd (GetUser sid w)) = addresses w" unfolding g using o'(5) by simp
  show "cards (snd (GetUser sid w)) = cards w" unfolding g using o'(6) by simp
qed

lemma GetUser_absent:
  assumes "ObjectIdHex sid = Some i" and "IsObjectIdHex sid"
    and "map_of (customers w) i = None" and "head_fault w = None"
  shows "snd (fst (GetUser sid w)) = Some ErrNotFound"
proof -
  obtain mu e w1 where o: "One_customers i New w = ((mu, e), w1)"
    by (cases "One_customers i New w") auto
  from One_customers_run(7) [OF o assms(4,3)] have "e = Some ErrNotFound" by simp
  then show ?thesis using assms(1,2) o by (simp add: GetUser_def)
qed

lemma alice_store_eq:
  "alice_store =
    \<lparr>customers = [(oid_of_nat 0, \<lparr>User = alice\<lparr>Addresses := [], Cards := []\<rparr>, ID = oid_of_nat 0,
                      AddressIDs = [oid_of_nat 3], CardIDs = [oid_of_nat 1]\<rparr>)],
     addresses = [(oid_of_nat 3, \<lparr>Address = \<lparr>postal = ''1 High Street'', ID = ''''\<rparr>, ID = oid_of_nat 3\<rparr>)],
     cards = [(oid_of_nat 1, \<lparr>Card = \<lparr>payment = ''4111'', ID = ''''\<rparr>, ID = oid_of_nat 1\<rparr>)],
     counter = 4, faults = [],
     trace = [\<lparr>coll = ''cards'', query = UpsertId (oid_of_nat 1), outcome = None\<rparr>,
              \<lparr>coll = ''cards'', query = UpsertId (oid_of_nat 2), outcome = Some (ErrIO ''connection reset'')\<rparr>,
              \<lparr>coll = ''addresses'', query = UpsertId (oid_of_nat 3), outcome = None\<rparr>,
              \<lparr>coll = ''customers'', query = UpsertId (oid_of_nat 0), outcome = None\<rparr>]\<rparr>"
  unfolding alice_store_def run_second_card_down by simp

lemma run_delete_alice:
  "Delete ''customers'' (Hex (oid_of_nat 0)) alice_store_flaky =
    (None,
     \<lparr>customers = [],
      addresses = [(oid_of_nat 3, \<lparr>Address = \<lparr>postal = ''1 High Street'', ID = ''''\<rparr>, ID = oid_of_nat 3\<rparr>)],
      cards = [], counter = 4, faults = [],
      trace = trace alice_store
              @ [\<lparr>coll = ''customers'', query = FindId (oid_of_nat 0), outcome = None\<rparr>,
                 \<lparr>coll = ''addresses'', query = RemoveAllIn [oid_of_nat 3], outcome = Some (ErrIO ''timeout'')\<rparr>,
                 \<lparr>coll = ''cards'', query = RemoveAllIn [oid_of_nat 1], outcome = None\<rparr>,
                 \<lparr>coll = ''customers'', query = RemoveId (oid_of_nat 0), outcome = None\<rparr>]\<rparr>)"
  unfolding alice_store_flaky_def alice_store_eq
  by (simp add: Delete_def GetUser_def One_customers_def RemoveAll_addresses_def
        RemoveAll_cards_def Remove_def roundtrip_def reply_def New_def AddUserIDs_def
        unmarshal_MongoUser_def bson_MongoUser_def users_New_def alice_def Let_def)

section \<open>Delete\<close>

text \<open>
  C4. Take a well-formed id of a stored user whose reference ids are valid identifiers, and
  a store that answers the load. Then the calls of \<open>Delete\<close> on \<open>customers\<close> are, in
  this order: the load of the user, one \<open>RemoveAll\<close> on \<open>addresses\<close> for all its address
  references, one \<open>RemoveAll\<close> on \<open>cards\<close> for all its card references, and the removal
  of the user document. The result of \<open>Delete\<close> is the outcome of that last removal alone:
  the outcomes \<open>o1\<close> and \<open>o2\<close> of the bulk removals are not propagated. After a
  successful delete the user document is gone and \<open>GetUser\<close> on the same id answers not
  found (when the store answers), and every referenced document whose bulk removal worked
  is gone from its collection.
\<close>

theorem Delete_customers:
  assumes "IsObjectIdHex sid" and "ObjectIdHex sid = Some i"
    and "map_of (customers w) i = Some d" and "head_fault w = None"
    and "\<forall>k \<in> set (AddressIDs d) \<union> set (CardIDs d). length k = 12"
    and "Delete ''customers'' sid w = (r, w')"
  shows "\<exists>o1 o2.
           new_events w w'
             = [\<lparr>coll = ''customers'', query = FindId i, outcome = None\<rparr>,
                \<lparr>coll = ''addresses'', query = RemoveAllIn (AddressIDs d), outcome = o1\<rparr>,
                \<lparr>coll = ''cards'', query = RemoveAllIn (CardIDs d), outcome = o2\<rparr>,
                \<lparr>coll = ''customers'', query = RemoveId i, outcome = r\<rparr>]
           \<and> (o1 = None \<longrightarrow> (\<forall>k \<in> set (AddressIDs d). map_of (addresses w') k = None))
           \<and> (o2 = None \<longrightarrow> (\<forall>k \<in> set (CardIDs d). map_of (cards w') k = None))
           \<and> (r = None \<longrightarrow>
                 map_of (customers w') i = None
                 \<and> (head_fault w' = None \<longrightarrow> snd (fst (GetUser sid w')) = Some ErrNotFound))"
proof -
  define w1 where "w1 = snd (GetUser sid w)"
  note g = GetUser_found [OF assms(2,1,3,4), folded w1_def]
  let ?u = "(MongoUser.User d)
                \<lparr>Addresses := map (\<lambda>k. \<lparr>postal = '''', ID = Hex k\<rparr>) (AddressIDs d),
                  Cards := map (\<lambda>k. \<lparr>payment = '''', ID = Hex k\<rparr>) (CardIDs d),
                  UserID := Hex i\<rparr>"
  have gu: "GetUser sid w = ((?u, None), w1)"
    using g(1) by (simp add: w1_def prod_eq_iff)
  have aids: "those (map (\<lambda>k. ObjectIdHex (Hex k)) (AddressIDs d)) = Some (AddressIDs d)"
    using assms(5) by (intro those_Hex) simp
  have cids: "those (map (\<lambda>k. ObjectIdHex (Hex k)) (CardIDs d)) = Some (CardIDs d)"
    using assms(5) by (intro those_Hex) simp
  obtain o1 w2 where r1: "RemoveAll_addresses (AddressIDs d) w1 = (o1, w2)"
    by (cases "RemoveAll_addresses (AddressIDs d) w1")
  obtain o2 w3 where r2: "RemoveAll_cards (CardIDs d) w2 = (o2, w3)"
    by (cases "RemoveAll_cards (CardIDs d) w2")
  obtain x w4 where rm: "Remove ''customers'' i w3 = (x, w4)"
    by (cases "Remove ''customers'' i w3")
  note r1' = RemoveAll_addresses_run [OF r1]
  note r2' = RemoveAll_cards_run [OF r2]
  note rm' = Remove_run [OF rm]
  have res: "Delete ''customers'' sid w = (x, w4)"
    unfolding Delete_def using assms(1,2)
    by (simp add: gu comp_def aids cids r1 r2 rm del: those.simps)
  with assms(6) have r: "r = x" and w': "w' = w4" by simp_all
  have t4: "trace w4 = trace w @
               [\<lparr>coll = ''customers'', query = FindId i, outcome = None\<rparr>,
                \<lparr>coll = ''addresses'', query = RemoveAllIn (AddressIDs d), outcome = o1\<rparr>,
                \<lparr>coll = ''cards'', query = RemoveAllIn (CardIDs d), outcome = o2\<rparr>,
                \<lparr>coll = ''customers'', query = RemoveId i, outcome = x\<rparr>]"
    by (simp add: g(2) r1'(1) r2'(1) rm'(1))
  have ev: "new_events w w4
             = [\<lparr>coll = ''customers'', query = FindId i, outcome = None\<rparr>,
                \<lparr>coll = ''addresses'', query = RemoveAllIn (AddressIDs d), outcome = o1\<rparr>,
                \<lparr>coll = ''cards'', query = RemoveAllIn (CardIDs d), outcome = o2\<rparr>,
                \<lparr>coll = ''customers'', query = RemoveId i, outcome = x\<rparr>]"
    using t4 by (rule new_events_append)
  have a4: "addresses w4 = addresses w2"
    by (simp add: rm'(8) r2'(5))
  have c4: "cards w4 = cards w3"
    by (simp add: rm'(9))
  have ra: "o1 = None \<longrightarrow> (\<forall>k \<in> set (AddressIDs d). map_of (addresses w4) k = None)"
    by (simp add: a4 r1'(6) map_of_removed)
  have rc: "o2 = None \<longrightarrow> (\<forall>k \<in> set (CardIDs d). map_of (cards w4) k = None)"
    by (simp add: c4 r2'(6) map_of_removed)
  have gone: "x = None \<longrightarrow>
                 map_of (customers w4) i = None
                 \<and> (head_fault w4 = None \<longrightarrow> snd (fst (GetUser sid w4)) = Some ErrNotFound)"
  proof (intro impI conjI)
    assume "x = None"
    then show n: "map_of (customers w4) i = None" by (simp add: rm'(4))
    assume "head_fault w4 = None"
    with n show "snd (fst (GetUser sid w4)) = Some ErrNotFound"
      by (intro GetUser_absent [OF assms(2,1)])
  qed
  show ?thesis
    unfolding r w'
    by (rule exI [of _ o1], rule exI [of _ o2]) (intro conjI ev ra rc gone)
qed

theorem Delete_customers_witness:
  "IsObjectIdHex (Hex (oid_of_nat 0))
   \<and> ObjectIdHex (Hex (oid_of_nat 0)) = Some (oid_of_nat 0)
   \<and> map_of (customers alice_store_flaky) (oid_of_nat 0)
       = Some \<lparr>User = alice\<lparr>Addresses := [], Cards := []\<rparr>, ID = oid_of_nat 0,
               AddressIDs = [oid_of_nat 3], CardIDs = [oid_of_nat 1]\<rparr>
   \<and> head_fault alice_store_flaky = None
   \<and> fst (Delete ''customers'' (Hex (oid_of_nat 0)) alice_store_flaky) = None
   \<and> new_events alice_store_flaky (snd (Delete ''customers'' (Hex (oid_of_nat 0)) alice_store_flaky))
       = [\<lparr>coll = ''customers'', query = FindId (oid_of_nat 0), outcome = None\<rparr>,
          \<lparr>coll = ''addresses'', query = RemoveAllIn [oid_of_nat 3], outcome = Some (ErrIO ''timeout'')\<rparr>,
          \<lparr>coll = ''cards'', query = RemoveAllIn [oid_of_nat 1], outcome = None\<rparr>,
          \<lparr>coll = ''customers'', query = RemoveId (oid_of_nat 0), outcome = None\<rparr>]
   \<and> map_of (customers (snd (Delete ''customers'' (Hex (oid_of_nat 0)) alice_store_flaky)))
         (oid_of_nat 0) = None
   \<and> map_of (cards (snd (Delete ''customers'' (Hex (oid_of_nat 0)) alice_store_flaky)))
         (oid_of_nat 1) = None
   \<and> snd (fst (GetUser (Hex (oid_of_nat 0))
                  (snd (Delete ''customers'' (Hex (oid_of_nat 0)) alice_store_flaky))))
       = Some ErrNotFound"
proof -
  let ?w' = "snd (Delete ''customers'' (Hex (oid_of_nat 0)) alice_store_flaky)"
  have h3: "map_of (customers alice_store_flaky) (oid_of_nat 0)
       = Some \<lparr>User = alice\<lparr>Addresses := [], Cards := []\<rparr>, ID = oid_of_nat 0,
               AddressIDs = [oid_of_nat 3], CardIDs = [oid_of_nat 1]\<rparr>"
    by (simp add: alice_store_flaky_def alice_store_eq)
  have h4: "head_fault alice_store_flaky = None"
    by (simp add: alice_store_flaky_def head_fault_def)
  have h5: "\<forall>k \<in> set (AddressIDs \<lparr>User = alice\<lparr>Addresses := [], Cards := []\<rparr>, ID = oid_of_nat 0,
               AddressIDs = [oid_of_nat 3], CardIDs = [oid_of_nat 1]\<rparr>)
             \<union> set (CardIDs \<lparr>User = alice\<lparr>Addresses := [], Cards := []\<rparr>, ID = oid_of_nat 0,
               AddressIDs = [oid_of_nat 3], CardIDs = [oid_of_nat 1]\<rparr>). length k = 12"
    by simp
  have run: "Delete ''customers'' (Hex (oid_of_nat 0)) alice_store_flaky = (None, ?w')"
    by (simp add: run_delete_alice)
  have ev: "new_events alice_store_flaky ?w'
       = [\<lparr>coll = ''customers'', query = FindId (oid_of_nat 0), outcome = None\<rparr>,
          \<lparr>coll = ''addresses'', query = RemoveAllIn [oid_of_nat 3], outcome = Some (ErrIO ''timeout'')\<rparr>,
          \<lparr>coll = ''cards'', query = RemoveAllIn [oid_of_nat 1], outcome = None\<rparr>,
          \<lparr>coll = ''customers'', query = RemoveId (oid_of_nat 0), outcome = None\<rparr>]"
    unfolding run_delete_alice by (simp add: new_events_def alice_store_flaky_def)
  have hf: "head_fault ?w' = None"
    by (simp add: run_delete_alice head_fault_def)
  from Delete_customers [OF _ _ h3 h4 h5 run]
  obtain o1 o2 where
    e: "new_events alice_store_flaky ?w'
             = [\<lparr>coll = ''customers'', query = FindId (oid_of_nat 0), outcome = None\<rparr>,
                \<lparr>coll = ''addresses'', query = RemoveAllIn [oid_of_nat 3], outcome = o1\<rparr>,
                \<lparr>coll = ''cards'', query = RemoveAllIn [oid_of_nat 1], outcome = o2\<rparr>,
                \<lparr>coll = ''customers'', query = RemoveId (oid_of_nat 0), outcome = None\<rparr>]"
    and c: "o2 = None \<longrightarrow> (\<forall>k \<in> set [oid_of_nat 1]. map_of (cards ?w') k = None)"
    and g: "map_of (customers ?w') (oid_of_nat 0) = None
            \<and> (head_fault ?w' = None \<longrightarrow>
                 snd (fst (GetUser (Hex (oid_of_nat 0)) ?w')) = Some ErrNotFound)"
    by auto
  from e ev have "o2 = None" by simp
  moreover have "fst (Delete ''customers'' (Hex (oid_of_nat 0)) alice_store_flaky) = None"
    by (simp add: run_delete_alice)
  ultimately show ?thesis using c g hf h3 h4 ev by simp
qed

lemma pull_removes:
  "(k, d) \<in> set (map (\<lambda>(k, d). (k, pull entity i d)) cs) \<Longrightarrow>
     (entity = ''addresses'' \<longrightarrow> i \<notin> set (AddressIDs d))
     \<and> (entity = ''cards'' \<longrightarrow> i \<notin> set (CardIDs d))"
  by (auto simp: pull_def)

lemma run_delete_address:
  "Delete ''addresses'' (Hex (oid_of_nat 3)) alice_store =
    (None,
     \<lparr>customers = [(oid_of_nat 0, \<lparr>User = alice\<lparr>Addresses := [], Cards := []\<rparr>, ID = oid_of_nat 0,
                      AddressIDs = [], CardIDs = [oid_of_nat 1]\<rparr>)],
      addresses = [],
      cards = [(oid_of_nat 1, \<lparr>Card = \<lparr>payment = ''4111'', ID = ''''\<rparr>, ID = oid_of_nat 1\<rparr>)],
      counter = 4, faults = [],
      trace = trace alice_store
              @ [\<lparr>coll = ''customers'', query = UpdateAllPull ''addresses'' (oid_of_nat 3), outcome = None\<rparr>,
                 \<lparr>coll = ''addresses'', query = RemoveId (oid_of_nat 3), outcome = None\<rparr>]\<rparr>)"
  unfolding alice_store_eq
  by (simp add: Delete_def UpdateAll_pull_def Remove_def roundtrip_def reply_def pull_def Let_def)

text \<open>
  C5. For a nested kind (\<open>addresses\<close> or \<open>cards\<close>) and a well-formed id, the calls of
  \<open>Delete\<close> are one \<open>UpdateAll\<close> over every user document, pulling the identifier out
  of the reference set of that kind, and then the removal of the entity document, whose
  outcome is the result of \<open>Delete\<close>. When the update worked, no user document references
  the identifier any more. After a successful delete the entity document is gone, and
  GetUserAttributes on any user value with well-formed references (one that referenced the
  entity included) returns no error and no entry with the identifier of the deleted entity,
  when the store answers its two queries.
\<close>

theorem Delete_nested:
  assumes "entity = ''addresses'' \<or> entity = ''cards''"
    and "IsObjectIdHex sid" and "ObjectIdHex sid = Some i"
    and "Delete entity sid w = (r, w')"
  shows "\<exists>o1.
           new_events w w'
             = [\<lparr>coll = ''customers'', query = UpdateAllPull entity i, outcome = o1\<rparr>,
                \<lparr>coll = entity, query = RemoveId i, outcome = r\<rparr>]
           \<and> (o1 = None \<longrightarrow>
                 (\<forall>(k, d) \<in> set (customers w').
                     (entity = ''addresses'' \<longrightarrow> i \<notin> set (AddressIDs d))
                     \<and> (entity = ''cards'' \<longrightarrow> i \<notin> set (CardIDs d))))
           \<and> (r = None \<longrightarrow>
                 (entity = ''addresses'' \<longrightarrow> map_of (addresses w') i = None)
                 \<and> (entity = ''cards'' \<longrightarrow> map_of (cards w') i = None)
                 \<and> (\<forall>u :: User. (\<forall>a \<in> set (Addresses u). IsObjectIdHex (Address.ID a))
                          \<and> (\<forall>c \<in> set (Cards u). IsObjectIdHex (Card.ID c))
                          \<and> no_fault 2 w' \<longrightarrow>
                        fst (fst (GetUserAttributes u w')) = None
                        \<and> (entity = ''addresses'' \<longrightarrow>
                             (\<forall>b \<in> set (Addresses (snd (fst (GetUserAttributes u w')))).
                                 Address.ID b \<noteq> Hex i))
                        \<and> (entity = ''cards'' \<longrightarrow>
                             (\<forall>b \<in> set (Cards (snd (fst (GetUserAttributes u w')))).
                                 Card.ID b \<noteq> Hex i))))"
proof -
  from assms(1) have nc: "entity \<noteq> ''customers''" by auto
  obtain o1 w1 where p: "UpdateAll_pull entity i w = (o1, w1)"
    by (cases "UpdateAll_pull entity i w")
  obtain x w2 where rm: "Remove entity i w1 = (x, w2)"
    by (cases "Remove entity i w1")
  note p' = UpdateAll_pull_run [OF p]
  note rm' = Remove_run [OF rm]
  have "Delete entity sid w = (x, w2)"
    using assms(2,3) nc by (simp add: Delete_def p rm)
  with assms(4) have r: "r = x" and w': "w' = w2" by simp_all
  have t2: "trace w2 = trace w @
              [\<lparr>coll = ''customers'', query = UpdateAllPull entity i, outcome = o1\<rparr>,
               \<lparr>coll = entity, query = RemoveId i, outcome = x\<rparr>]"
    by (simp add: p'(1) rm'(1))
  have ev: "new_events w w2
             = [\<lparr>coll = ''customers'', query = UpdateAllPull entity i, outcome = o1\<rparr>,
                \<lparr>coll = entity, query = RemoveId i, outcome = x\<rparr>]"
    using t2 by (rule new_events_append)
  have c2: "customers w2 = customers w1" using rm'(7) nc by simp
  have pulled: "o1 = None \<longrightarrow>
                 (\<forall>(k, d) \<in> set (customers w2).
                     (entity = ''addresses'' \<longrightarrow> i \<notin> set (AddressIDs d))
                     \<and> (entity = ''cards'' \<longrightarrow> i \<notin> set (CardIDs d)))"
  proof (intro impI)
    assume "o1 = None"
    then have "customers w2 = map (\<lambda>(k, d). (k, pull entity i d)) (customers w)"
      using c2 p'(6) by simp
    then have each: "\<And>k d. (k, d) \<in> set (customers w2) \<Longrightarrow>
                     (entity = ''addresses'' \<longrightarrow> i \<notin> set (AddressIDs d))
                     \<and> (entity = ''cards'' \<longrightarrow> i \<notin> set (CardIDs d))"
      using pull_removes [of _ _ entity i "customers w"] by simp
    show "\<forall>(k, d) \<in> set (customers w2).
                     (entity = ''addresses'' \<longrightarrow> i \<notin> set (AddressIDs d))
                     \<and> (entity = ''cards'' \<longrightarrow> i \<notin> set (CardIDs d))"
    proof (intro ballI)
      fix x assume x: "x \<in> set (customers w2)"
      obtain k d where kd: "x = (k, d)" by (cases x)
      from x kd have "(k, d) \<in> set (customers w2)" by simp
      from each [OF this] show "case x of (k, d) \<Rightarrow>
                     (entity = ''addresses'' \<longrightarrow> i \<notin> set (AddressIDs d))
                     \<and> (entity = ''cards'' \<longrightarrow> i \<notin> set (CardIDs d))"
        by (simp add: kd)
    qed
  qed
  have gone: "x = None \<longrightarrow>
                 (entity = ''addresses'' \<longrightarrow> map_of (addresses w2) i = None)
                 \<and> (entity = ''cards'' \<longrightarrow> map_of (cards w2) i = None)"
    using rm'(5,6) by blast
  have attrs: "x = None \<longrightarrow>
                 (\<forall>u :: User. (\<forall>a \<in> set (Addresses u). IsObjectIdHex (Address.ID a))
                          \<and> (\<forall>c \<in> set (Cards u). IsObjectIdHex (Card.ID c))
                          \<and> no_fault 2 w2 \<longrightarrow>
                        fst (fst (GetUserAttributes u w2)) = None
                        \<and> (entity = ''addresses'' \<longrightarrow>
                             (\<forall>b \<in> set (Addresses (snd (fst (GetUserAttributes u w2)))).
                                 Address.ID b \<noteq> Hex i))
                        \<and> (entity = ''cards'' \<longrightarrow>
                             (\<forall>b \<in> set (Cards (snd (fst (GetUserAttributes u w2)))).
                                 Card.ID b \<noteq> Hex i)))"
  proof (intro impI allI)
    fix u :: User
    assume x: "x = None"
      and h: "(\<forall>a \<in> set (Addresses u). IsObjectIdHex (Address.ID a))
                \<and> (\<forall>c \<in> set (Cards u). IsObjectIdHex (Card.ID c)) \<and> no_fault 2 w2"
    then have wa: "\<forall>a \<in> set (Addresses u). IsObjectIdHex (Address.ID a)"
      and wc: "\<forall>c \<in> set (Cards u). IsObjectIdHex (Card.ID c)"
      and nf: "no_fault 2 w2" by simp_all
    note f = GetUserAttributes_found [OF wa wc nf]
    have "fst (fst (GetUserAttributes u w2)) = None" by (simp add: f)
    moreover have "entity = ''addresses'' \<longrightarrow>
                     (\<forall>b \<in> set (Addresses (snd (fst (GetUserAttributes u w2)))).
                         Address.ID b \<noteq> Hex i)"
      using gone x found_addresses_orphan [of w2 i] by (auto simp: f)
    moreover have "entity = ''cards'' \<longrightarrow>
                     (\<forall>b \<in> set (Cards (snd (fst (GetUserAttributes u w2)))).
                         Card.ID b \<noteq> Hex i)"
      using gone x found_cards_orphan [of w2 i] by (auto simp: f)
    ultimately show "fst (fst (GetUserAttributes u w2)) = None
                        \<and> (entity = ''addresses'' \<longrightarrow>
                             (\<forall>b \<in> set (Addresses (snd (fst (GetUserAttributes u w2)))).
                                 Address.ID b \<noteq> Hex i))
                        \<and> (entity = ''cards'' \<longrightarrow>
                             (\<forall>b \<in> set (Cards (snd (fst (GetUserAttributes u w2)))).
                                 Card.ID b \<noteq> Hex i))"
      by blast
  qed
  show ?thesis
    unfolding r w'
    apply (rule exI [of _ o1])
    apply (intro conjI ev pulled)
    using gone attrs by blast
qed

theorem Delete_nested_witness:
  "IsObjectIdHex (Hex (oid_of_nat 3))
   \<and> ObjectIdHex (Hex (oid_of_nat 3)) = Some (oid_of_nat 3)
   \<and> fst (Delete ''addresses'' (Hex (oid_of_nat 3)) alice_store) = None
   \<and> new_events alice_store (snd (Delete ''addresses'' (Hex (oid_of_nat 3)) alice_store))
       = [\<lparr>coll = ''customers'', query = UpdateAllPull ''addresses'' (oid_of_nat 3), outcome = None\<rparr>,
          \<lparr>coll = ''addresses'', query = RemoveId (oid_of_nat 3), outcome = None\<rparr>]
   \<and> map AddressIDs (map snd (customers (snd (Delete ''addresses'' (Hex (oid_of_nat 3)) alice_store))))
       = [[]]
   \<and> map_of (addresses (snd (Delete ''addresses'' (Hex (oid_of_nat 3)) alice_store))) (oid_of_nat 3)
       = None
   \<and> no_fault 2 (snd (Delete ''addresses'' (Hex (oid_of_nat 3)) alice_store))
   \<and> fst (fst (GetUserAttributes alice_stale
                 (snd (Delete ''addresses'' (Hex (oid_of_nat 3)) alice_store)))) = None"
proof -
  let ?w' = "snd (Delete ''addresses'' (Hex (oid_of_nat 3)) alice_store)"
  have run: "Delete ''addresses'' (Hex (oid_of_nat 3)) alice_store = (None, ?w')"
    by (simp add: run_delete_address)
  have f: "fst (Delete ''addresses'' (Hex (oid_of_nat 3)) alice_store) = None"
    by (simp add: run_delete_address)
  have ev: "new_events alice_store ?w'
       = [\<lparr>coll = ''customers'', query = UpdateAllPull ''addresses'' (oid_of_nat 3), outcome = None\<rparr>,
          \<lparr>coll = ''addresses'', query = RemoveId (oid_of_nat 3), outcome = None\<rparr>]"
    unfolding run_delete_address by (simp add: new_events_def)
  have cu: "map AddressIDs (map snd (customers ?w')) = [[]]"
    unfolding run_delete_address by simp
  have nf: "no_fault 2 ?w'"
    unfolding run_delete_address by (simp add: no_fault_def)
  have wf: "(\<forall>a \<in> set (Addresses alice_stale). IsObjectIdHex (Address.ID a))
            \<and> (\<forall>c \<in> set (Cards alice_stale). IsObjectIdHex (Card.ID c))"
    by (simp add: alice_stale_def)
  from Delete_nested [where entity = "''addresses''", OF _ _ _ run,
      of "oid_of_nat 3"]
  have g: "map_of (addresses ?w') (oid_of_nat 3) = None"
    and a: "\<forall>u :: User. (\<forall>a \<in> set (Addresses u). IsObjectIdHex (Address.ID a))
               \<and> (\<forall>c \<in> set (Cards u). IsObjectIdHex (Card.ID c)) \<and> no_fault 2 ?w' \<longrightarrow>
             fst (fst (GetUserAttributes u ?w')) = None"
    by auto
  from a wf nf have "fst (fst (GetUserAttributes alice_stale ?w')) = None" by blast
  with f ev cu nf g show ?thesis by simp
qed

end
